theory Spec2Isabelle
  imports Complex_Main "HOL-Library.Char_ord" "HOL-Library.List_Lexorder"
    "HOL-Library.AList"
begin

section \<open>Python values and exceptions\<close>

text \<open>
  Exceptions of the source are values: a function that can raise returns
  \<open>error + 'a\<close>, with \<open>Inl\<close> for the exception. Strings are byte strings; the
  text functions below are the ASCII part of their Python counterparts.
\<close>

datatype error = KeyError | ValueError | TypeError | OverflowError | ZeroDivisionError
  | ApiError | WarehouseError

text \<open>A JSON scalar as the catalog client delivers it: a string, a number or null.\<close>

datatype pyval = PyStr string | PyInt int | PyNone

text \<open>
  The characters \<open>int\<close> skips at both ends of an ASCII string: tab, line feed, vertical
  tab, form feed, carriage return and space.
\<close>

definition is_space :: "char \<Rightarrow> bool" where
  "is_space c = (let n = (of_char c :: nat) in (9 \<le> n \<and> n \<le> 13) \<or> n = 32)"

definition digit_val :: "char \<Rightarrow> nat option" where
  "digit_val c = (let n = (of_char c :: nat) in if 48 \<le> n \<and> n \<le> 57 then Some (n - 48) else None)"

text \<open>
  The digits of a decimal literal after its first digit: a single underscore may stand
  between two digits.
\<close>

fun digits_val :: "nat \<Rightarrow> string \<Rightarrow> nat option" where
  "digits_val acc [] = Some acc"
| "digits_val acc [c] =
     (case digit_val c of None \<Rightarrow> None | Some v \<Rightarrow> Some (10 * acc + v))"
| "digits_val acc (c # d # cs) =
     (if c = CHR ''_'' then
        (case digit_val d of None \<Rightarrow> None | Some v \<Rightarrow> digits_val (10 * acc + v) cs)
      else
        (case digit_val c of None \<Rightarrow> None | Some v \<Rightarrow> digits_val (10 * acc + v) (d # cs)))"

text \<open>
  \<open>sys.get_int_max_str_digits()\<close>, at its default: \<open>int\<close> refuses a decimal literal
  with more digits, leading zeros counted and underscores not.
\<close>

definition int_max_str_digits :: nat where
  "int_max_str_digits = 4300"

definition unsigned_val :: "string \<Rightarrow> nat option" where
  "unsigned_val s =
     (if int_max_str_digits < length (filter (\<lambda>c. c \<noteq> CHR ''_'') s) then None
      else case s of [] \<Rightarrow> None
        | c # cs \<Rightarrow> (case digit_val c of None \<Rightarrow> None | Some v \<Rightarrow> digits_val v cs))"

definition strip :: "string \<Rightarrow> string" where
  "strip s = rev (dropWhile is_space (rev (dropWhile is_space s)))"

definition int_of_str :: "string \<Rightarrow> error + int" where
  "int_of_str s =
     (case strip s of
        [] \<Rightarrow> Inl ValueError
      | c # cs \<Rightarrow>
          if c = CHR ''-'' then
            (case unsigned_val cs of None \<Rightarrow> Inl ValueError | Some n \<Rightarrow> Inr (- int n))
          else if c = CHR ''+'' then
            (case unsigned_val cs of None \<Rightarrow> Inl ValueError | Some n \<Rightarrow> Inr (int n))
          else
            (case unsigned_val (c # cs) of None \<Rightarrow> Inl ValueError | Some n \<Rightarrow> Inr (int n)))"

text \<open>Python's \<open>int(x)\<close>: a number is itself, a string is parsed, \<open>None\<close> is a TypeError.\<close>

fun py_int :: "pyval \<Rightarrow> error + int" where
  "py_int (PyInt n) = Inr n"
| "py_int (PyStr s) = int_of_str s"
| "py_int PyNone = Inl TypeError"

definition lower_char :: "char \<Rightarrow> char" where
  "lower_char c = (let n = (of_char c :: nat) in if 65 \<le> n \<and> n \<le> 90 then char_of (n + 32) else c)"

definition lower :: "string \<Rightarrow> string" where
  "lower s = map lower_char s"

text \<open>\<open>sep.join(xs)\<close>\<close>

fun join :: "string \<Rightarrow> string list \<Rightarrow> string" where
  "join sep [] = []"
| "join sep [x] = x"
| "join sep (x # y # ys) = x @ sep @ join sep (y # ys)"

text \<open>\<open>word in text\<close> on strings: \<open>word\<close> occurs in \<open>text\<close> as a contiguous substring.\<close>

fun py_in :: "string \<Rightarrow> string \<Rightarrow> bool" where
  "py_in w [] = (w = [])"
| "py_in w (c # cs) = (take (length w) (c # cs) = w \<or> py_in w cs)"

section \<open>Configuration\<close>

record config =
  POSITIVE_KEYWORDS :: "string list"
  NEGATIVE_KEYWORDS :: "string list"
  POSITIVE_CATEGORIES :: "int list"
  NEGATIVE_CATEGORIES :: "int list"
  MIXED_CATEGORIES :: "int list"
  REGIONS :: "string list"
  SEARCH_KEYWORDS :: "string list"
  VIDEOS_PER_KEYWORD :: nat

text \<open>\<open>src/config.py\<close>, class \<open>Config\<close> (with \<open>DRY_RUN = False\<close>).\<close>

definition Config :: config where
  "Config = \<lparr>
     POSITIVE_KEYWORDS = [''tutorial'', ''guide'', ''learn'', ''teach'', ''education'',
       ''how-to'', ''tips'', ''inspire'', ''motivate'', ''success'', ''improve'', ''growth'',
       ''help'', ''advice'', ''solution''],
     NEGATIVE_KEYWORDS = [''drama'', ''exposed'', ''controversy'', ''scandal'', ''fail'',
       ''worst'', ''terrible'', ''hate'', ''trash'', ''clickbait'', ''rant'', ''angry'',
       ''crisis'', ''disaster'', ''warning''],
     POSITIVE_CATEGORIES = [19, 26, 27, 28, 29],
     NEGATIVE_CATEGORIES = [20, 23, 24, 25],
     MIXED_CATEGORIES = [1, 2, 10, 15, 17, 22],
     REGIONS = [''US'', ''IN'', ''GB'', ''CA'', ''AU''],
     SEARCH_KEYWORDS = [''technology'', ''lifestyle'', ''tutorial'', ''daily vlog'',
       ''news update'', ''gaming''],
     VIDEOS_PER_KEYWORD = 10 \<rparr>"

text \<open>\<open>azure-functions/function_app.py\<close>, class \<open>AzureFunctionConfig\<close>.\<close>

definition AzureFunctionConfig :: config where
  "AzureFunctionConfig = \<lparr>
     POSITIVE_KEYWORDS = [''amazing'', ''great'', ''excellent'', ''best'', ''awesome''],
     NEGATIVE_KEYWORDS = [''terrible'', ''worst'', ''bad'', ''awful'', ''horrible''],
     POSITIVE_CATEGORIES = [28],
     NEGATIVE_CATEGORIES = [25],
     MIXED_CATEGORIES = [22, 23, 24],
     REGIONS = [''US'', ''GB'', ''CA'', ''AU''],
     SEARCH_KEYWORDS = [''technology'', ''AI'', ''machine learning'', ''data science''],
     VIDEOS_PER_KEYWORD = 5 \<rparr>"

section \<open>Catalog items\<close>

text \<open>
  The items of the catalog's responses. A field the source reads with \<open>d['k']\<close> or
  \<open>d.get('k', default)\<close> is an option: \<open>None\<close> is the absent key, which \<open>d['k']\<close>
  turns into a KeyError and \<open>d.get\<close> into the default.
\<close>

record snippet =
  categoryId :: "pyval option"
  title :: "string option"
  description :: "string option"
  tags :: "string list option"
  channelId :: "string option"
  publishedAt :: "string option"

record statistics =
  viewCount :: "pyval option"
  likeCount :: "pyval option"
  commentCount :: "pyval option"

record video_item =
  video_item_id :: "string option"
  video_snippet :: "snippet option"
  video_statistics :: "statistics option"

section \<open>Classifier\<close>

datatype sentiment = POSITIVE | NEGATIVE | NEUTRAL | UNKNOWN

datatype cmethod = CATEGORY_BASED | KEYWORD_BASED | UNCATEGORIZED

record classification =
  final_sentiment :: sentiment
  classification_method :: cmethod
  positive_keyword_count :: nat
  negative_keyword_count :: nat

text \<open>Sequencing: an exception of the first computation ends the whole one.\<close>

definition and_then :: "error + 'a \<Rightarrow> ('a \<Rightarrow> error + 'b) \<Rightarrow> error + 'b" where
  "and_then r f = (case r of Inl e \<Rightarrow> Inl e | Inr x \<Rightarrow> f x)"

text \<open>\<open>d[k]\<close>\<close>

definition subscript :: "'a option \<Rightarrow> error + 'a" where
  "subscript v = (case v of None \<Rightarrow> Inl KeyError | Some x \<Rightarrow> Inr x)"

text \<open>\<open>d.get(k, default)\<close>\<close>

definition get_or :: "'a option \<Rightarrow> 'a \<Rightarrow> 'a" where
  "get_or v d = (case v of None \<Rightarrow> d | Some x \<Rightarrow> x)"

text \<open>\<open>sum(1 for word in keywords if word in combined_text)\<close>\<close>

definition keyword_count :: "string list \<Rightarrow> string \<Rightarrow> nat" where
  "keyword_count keywords combined_text = length (filter (\<lambda>word. py_in word combined_text) keywords)"

text \<open>
  \<open>classify_video\<close> of \<open>YouTubeCollector\<close> and of \<open>YouTubeCollectorService\<close>: the two
  bodies are the same, each over its own configuration.
\<close>

definition classify_video :: "config \<Rightarrow> video_item \<Rightarrow> error + classification" where
  "classify_video cfg video_data =
     and_then (subscript (video_snippet video_data)) (\<lambda>sn.
     and_then (subscript (categoryId sn)) (\<lambda>cat.
     and_then (py_int cat) (\<lambda>category_id.
     and_then (subscript (title sn)) (\<lambda>ttl.
       let descr = get_or (description sn) [];
           tgs = get_or (tags sn) [];
           combined_text = lower (ttl @ '' '' @ descr @ '' '' @ join '' '' tgs);
           pos_count = keyword_count (POSITIVE_KEYWORDS cfg) combined_text;
           neg_count = keyword_count (NEGATIVE_KEYWORDS cfg) combined_text;
           sm =
             (if category_id \<in> set (POSITIVE_CATEGORIES cfg) then (POSITIVE, CATEGORY_BASED)
              else if category_id \<in> set (NEGATIVE_CATEGORIES cfg) then (NEGATIVE, CATEGORY_BASED)
              else if category_id \<in> set (MIXED_CATEGORIES cfg) then
                ((if pos_count > neg_count then POSITIVE
                  else if neg_count > pos_count then NEGATIVE
                  else NEUTRAL), KEYWORD_BASED)
              else (UNKNOWN, UNCATEGORIZED))
       in Inr \<lparr> final_sentiment = fst sm, classification_method = snd sm,
                 positive_keyword_count = pos_count, negative_keyword_count = neg_count \<rparr>))))"

section \<open>EngagementScorer\<close>

text \<open>
  Python's \<open>float\<close> is the IEEE 754 double. A finite double is the rational number it
  denotes (so \<open>-0.0\<close> and \<open>0.0\<close> are one value); every operation computes the exact
  rational result and rounds it to the nearest double, ties to even.
\<close>

datatype pyfloat = Finite rat | PosInf | NegInf

definition round_half_even :: "rat \<Rightarrow> int" where
  "round_half_even x =
     (let f = \<lfloor>x\<rfloor>; d = x - of_int f
      in if d < 1 / 2 then f else if 1 / 2 < d then f + 1 else if even f then f else f + 1)"

definition pow2 :: "int \<Rightarrow> rat" where
  "pow2 e = (if 0 \<le> e then 2 ^ nat e else 1 / 2 ^ nat (- e))"

text \<open>The number of binary digits of a positive integer (Python's \<open>int.bit_length\<close>).\<close>

function bit_length :: "int \<Rightarrow> int" where
  "bit_length n = (if n \<le> 0 then 0 else 1 + bit_length (n div 2))"
  by pat_completeness auto
termination
  by (relation "measure nat") auto

declare bit_length.simps [simp del]

text \<open>For \<open>0 < x\<close>, the exponent \<open>e\<close> with \<open>2 ^ e \<le> x < 2 ^ (e + 1)\<close>.\<close>

definition floor_log2 :: "rat \<Rightarrow> int" where
  "floor_log2 x =
     (let d = bit_length (fst (quotient_of x)) - bit_length (snd (quotient_of x))
      in if pow2 d \<le> x then d else d - 1)"

text \<open>
  The double nearest to \<open>x\<close>: 53 significant bits, the least exponent of a unit in the
  last place is \<open>-1074\<close>; \<open>None\<close> when the rounded value is beyond the largest double.
\<close>

definition round_to_double :: "rat \<Rightarrow> rat option" where
  "round_to_double x =
     (if x = 0 then Some 0
      else let q = max (floor_log2 \<bar>x\<bar> - 52) (- 1074);
               r = of_int (round_half_even (x / pow2 q)) * pow2 q
           in if \<bar>r\<bar> < pow2 1024 then Some r else None)"

text \<open>\<open>a / b\<close> on two \<open>int\<close>s: the correctly rounded quotient.\<close>

definition int_truediv :: "int \<Rightarrow> int \<Rightarrow> error + pyfloat" where
  "int_truediv a b =
     (if b = 0 then Inl ZeroDivisionError
      else case round_to_double (of_int a / of_int b) of
             None \<Rightarrow> Inl OverflowError
           | Some r \<Rightarrow> Inr (Finite r))"

text \<open>\<open>x * 100\<close> on a \<open>float\<close>: a product beyond the largest double is an infinity.\<close>

fun times_100 :: "pyfloat \<Rightarrow> pyfloat" where
  "times_100 (Finite x) =
     (case round_to_double (x * 100) of
        None \<Rightarrow> (if 0 < x then PosInf else NegInf)
      | Some r \<Rightarrow> Finite r)"
| "times_100 PosInf = PosInf"
| "times_100 NegInf = NegInf"

text \<open>
  \<open>round(x, ndigits)\<close> on a \<open>float\<close>, \<open>0 \<le> ndigits\<close>: the decimal with \<open>ndigits\<close> places
  nearest to the exact value of \<open>x\<close> (ties to even), read back as a double. An infinity
  rounds to itself.
\<close>

fun py_round :: "pyfloat \<Rightarrow> nat \<Rightarrow> error + pyfloat" where
  "py_round (Finite x) ndigits =
     (case round_to_double (of_int (round_half_even (x * 10 ^ ndigits)) / 10 ^ ndigits) of
        None \<Rightarrow> Inl OverflowError
      | Some r \<Rightarrow> Inr (Finite r))"
| "py_round PosInf ndigits = Inr PosInf"
| "py_round NegInf ndigits = Inr NegInf"

text \<open>
  \<open>calculate_engagement\<close> of \<open>YouTubeCollector\<close> and of \<open>YouTubeCollectorService\<close> (the
  same body).
\<close>

definition calculate_engagement :: "statistics \<Rightarrow> error + pyfloat" where
  "calculate_engagement stats =
     and_then (py_int (get_or (viewCount stats) (PyInt 0))) (\<lambda>views.
     and_then (py_int (get_or (likeCount stats) (PyInt 0))) (\<lambda>likes.
     and_then (py_int (get_or (commentCount stats) (PyInt 0))) (\<lambda>comments.
       if views = 0 then Inr (Finite 0)
       else and_then (int_truediv (likes + comments) views) (\<lambda>ratio.
              py_round (times_100 ratio) 4))))"

section \<open>Warehouse tables\<close>

text \<open>
  A table is the list of its rows, a row a record of its columns. \<open>CURRENT_DATE()\<close> and
  \<open>CURRENT_TIMESTAMP()\<close> are readings of the warehouse clock, handed to each statement;
  dates and timestamps are their ISO texts.
\<close>

record clock =
  CURRENT_DATE :: string
  CURRENT_TIMESTAMP :: string

text \<open>
  A ChannelRecord as \<open>collect_data\<close> builds it and \<open>upload_to_azure\<close> writes it, which is
  also a row of \<open>TEMP_CHANNELS\<close>.
\<close>

record channel_record =
  channel_id :: string
  channel_title :: string
  channel_country :: string
  subscriber_count :: int
  video_count :: int

text \<open>A row of \<open>CORE.DIM_CHANNELS\<close>; \<open>None\<close> is NULL.\<close>

record dim_channels = channel_record +
  first_seen_date :: "string option"
  last_updated :: "string option"

section \<open>DimensionMerger\<close>

text \<open>
  The files of the date partition whose name is \<open>LIKE '%channels_%'\<close>: the name of each
  file and the elements of its JSON array. \<open>None\<close> is an element whose \<open>channel_id\<close> path
  is NULL, such as a JSON null.
\<close>

type_synonym channels_file = "string \<times> channel_record option list"

text \<open>\<open>LATERAL FLATTEN\<close> with \<open>WHERE value:channel_id IS NOT NULL\<close>.\<close>

definition flatten_channels :: "channels_file list \<Rightarrow> (string \<times> channel_record) list" where
  "flatten_channels files = concat (map (\<lambda>(f, xs). map (Pair f) (List.map_filter id xs)) files)"

text \<open>
  The first row with the greatest file name: row number 1 of
  \<open>ORDER BY METADATA$FILENAME DESC\<close>. Among the rows of one file the warehouse is free
  to choose; the model takes the first.
\<close>

fun first_max :: "string \<times> 'a \<Rightarrow> (string \<times> 'a) list \<Rightarrow> string \<times> 'a" where
  "first_max b [] = b"
| "first_max b (x # xs) = first_max (if fst b < fst x then x else b) xs"

definition row_number_1 :: "(string \<times> channel_record) list \<Rightarrow> string \<Rightarrow> channel_record option" where
  "row_number_1 rows k =
     (case filter (\<lambda>r. channel_id (snd r) = k) rows of
        [] \<Rightarrow> None
      | x # xs \<Rightarrow> Some (snd (first_max x xs)))"

text \<open>
  \<open>CREATE OR REPLACE TEMPORARY TABLE TEMP_CHANNELS AS SELECT ... QUALIFY ROW_NUMBER()
  OVER (PARTITION BY value:channel_id ORDER BY METADATA$FILENAME DESC) = 1\<close>
\<close>

definition select_temp_channels :: "channels_file list \<Rightarrow> channel_record list" where
  "select_temp_channels files =
     (let rows = flatten_channels files
      in List.map_filter (row_number_1 rows) (remdups (map (\<lambda>r. channel_id (snd r)) rows)))"

text \<open>
  \<open>MERGE INTO CORE.DIM_CHANNELS tgt USING TEMP_CHANNELS src ON tgt.channel_id =
  src.channel_id\<close>. The inserted row names no \<open>last_updated\<close>: the column takes its
  default, which the table's definition fixes; \<open>dflt\<close> is its value in this statement.
\<close>

definition merge_dim_channels ::
  "clock \<Rightarrow> string option \<Rightarrow> channel_record list \<Rightarrow> dim_channels list \<Rightarrow> dim_channels list" where
  "merge_dim_channels now dflt src tgt =
     map (\<lambda>t. case find (\<lambda>s. channel_id s = channel_id t) src of
                None \<Rightarrow> t
              | Some s \<Rightarrow> t \<lparr> channel_title := channel_title s,
                              channel_country := channel_country s,
                              subscriber_count := subscriber_count s,
                              video_count := video_count s,
                              last_updated := Some (CURRENT_TIMESTAMP now) \<rparr>) tgt
     @ map (\<lambda>s. \<lparr> channel_id = channel_id s, channel_title = channel_title s,
                   channel_country = channel_country s,
                   subscriber_count = subscriber_count s, video_count = video_count s,
                   first_seen_date = Some (CURRENT_DATE now), last_updated = dflt \<rparr>)
         (filter (\<lambda>s. channel_id s \<notin> set (map channel_id tgt)) src)"

text \<open>
  The effect of \<open>_load_channels\<close> (\<open>load_channels\<close> in \<open>snowflake_loader.py\<close>, the same two
  statements) on \<open>DIM_CHANNELS\<close>.
\<close>

definition DimensionMerger ::
  "clock \<Rightarrow> string option \<Rightarrow> channels_file list \<Rightarrow> dim_channels list \<Rightarrow> dim_channels list" where
  "DimensionMerger now dflt files tgt = merge_dim_channels now dflt (select_temp_channels files) tgt"

section \<open>FactMerger\<close>

text \<open>
  A VideoRecord as \<open>collect_data\<close> builds it: the keys of the dictionary, with
  \<open>**classification\<close> as the parent record. The keys \<open>channel_id\<close>, \<open>title\<close>,
  \<open>description\<close> and \<open>tags\<close> carry the prefix \<open>video_\<close> here, their names being taken by
  the channel record and the snippet.
\<close>

record video_record = classification +
  video_id :: string
  video_channel_id :: string
  category_id :: int
  video_title :: string
  video_description :: string
  video_tags :: "string list"
  published_at :: string
  view_count :: int
  like_count :: int
  comment_count :: int
  engagement_rate :: pyfloat
  search_keyword :: string
  search_region :: string
  collected_at :: string

text \<open>A row of \<open>CORE.FACT_VIDEOS\<close>: the columns of the record and \<open>collection_date\<close>.\<close>

record fact_videos = video_record +
  collection_date :: string

text \<open>
  A row of \<open>RAW.STG_VIDEOS\<close>. \<open>raw_json\<close> is \<open>None\<close> for an element whose \<open>video_id\<close> path
  is NULL.
\<close>

record stg_videos =
  raw_json :: "video_record option"
  load_timestamp :: string
  file_name :: string

text \<open>\<open>DATE(ts)\<close> of an ISO timestamp: its first ten characters.\<close>

definition DATE :: "string \<Rightarrow> string" where
  "DATE ts = take 10 ts"

text \<open>
  The select list of both fact loaders, one column per path of \<open>raw_json\<close>, over the
  rows \<open>WHERE raw_json:video_id IS NOT NULL\<close>.
\<close>

definition select_videos :: "stg_videos list \<Rightarrow> fact_videos list" where
  "select_videos stg =
     map (\<lambda>v. \<lparr> final_sentiment = final_sentiment v,
                 classification_method = classification_method v,
                 positive_keyword_count = positive_keyword_count v,
                 negative_keyword_count = negative_keyword_count v,
                 video_id = video_id v, video_channel_id = video_channel_id v,
                 category_id = category_id v, video_title = video_title v,
                 video_description = video_description v, video_tags = video_tags v,
                 published_at = published_at v, view_count = view_count v,
                 like_count = like_count v, comment_count = comment_count v,
                 engagement_rate = engagement_rate v, search_keyword = search_keyword v,
                 search_region = search_region v, collected_at = collected_at v,
                 collection_date = DATE (collected_at v) \<rparr>)
       (List.map_filter raw_json stg)"

text \<open>
  \<open>MERGE INTO CORE.FACT_VIDEOS tgt USING (SELECT DISTINCT ...) src ON tgt.video_id =
  src.video_id WHEN NOT MATCHED THEN INSERT\<close>: every row of the source that matches no
  row of the target is inserted. \<open>DISTINCT\<close> compares whole rows.
\<close>

definition merge_fact_videos :: "fact_videos list \<Rightarrow> fact_videos list \<Rightarrow> fact_videos list" where
  "merge_fact_videos src tgt = tgt @ filter (\<lambda>s. video_id s \<notin> set (map video_id tgt)) src"

text \<open>The effect of \<open>SnowflakeLoaderService._load_video_facts\<close> on \<open>FACT_VIDEOS\<close>.\<close>

definition FactMerger :: "stg_videos list \<Rightarrow> fact_videos list \<Rightarrow> fact_videos list" where
  "FactMerger stg tgt = merge_fact_videos (remdups (select_videos stg)) tgt"

text \<open>
  The effect of \<open>SnowflakeLoader.load_video_facts\<close> on \<open>FACT_VIDEOS\<close>:
  \<open>INSERT INTO CORE.FACT_VIDEOS SELECT ...\<close>.
\<close>

definition insert_fact_videos :: "stg_videos list \<Rightarrow> fact_videos list \<Rightarrow> fact_videos list" where
  "insert_fact_videos stg tgt = tgt @ select_videos stg"

section \<open>AggregateRefresher\<close>

text \<open>A row of \<open>ANALYTICS.AGG_DAILY_BY_REGION\<close>.\<close>

record agg_daily_by_region =
  analysis_date :: string
  agg_channel_country :: string
  agg_final_sentiment :: sentiment
  agg_video_count :: nat
  total_views :: int
  total_likes :: int
  total_comments :: int
  avg_engagement_rate :: pyfloat

text \<open>
  The \<open>SELECT\<close> of the \<open>INSERT INTO ANALYTICS.AGG_DAILY_BY_REGION\<close>: the facts of today
  joined to their channels, grouped by country and sentiment. How the warehouse
  averages a FLOAT column is its own; \<open>avg\<close> stands for it.
\<close>

definition select_aggregations ::
  "(pyfloat list \<Rightarrow> pyfloat) \<Rightarrow> string \<Rightarrow> fact_videos list \<Rightarrow> dim_channels list \<Rightarrow>
     agg_daily_by_region list" where
  "select_aggregations avg today facts dims =
     (let joined = concat (map (\<lambda>v. map (Pair v)
                      (filter (\<lambda>ch. video_channel_id v = channel_id ch) dims))
                    (filter (\<lambda>v. collection_date v = today) facts));
          groups = remdups (map (\<lambda>(v, ch). (channel_country ch, final_sentiment v)) joined)
      in map (\<lambda>(country, s).
           let vs = map fst (filter (\<lambda>(v, ch). channel_country ch = country \<and>
                                               final_sentiment v = s) joined)
           in \<lparr> analysis_date = today, agg_channel_country = country,
                agg_final_sentiment = s, agg_video_count = length vs,
                total_views = sum_list (map view_count vs),
                total_likes = sum_list (map like_count vs),
                total_comments = sum_list (map comment_count vs),
                avg_engagement_rate = avg (map engagement_rate vs) \<rparr>) groups)"

section \<open>Warehouse connection\<close>

text \<open>The four tables of the warehouse.\<close>

record database =
  STG_VIDEOS :: "stg_videos list"
  DIM_CHANNELS :: "dim_channels list"
  FACT_VIDEOS :: "fact_videos list"
  AGG_DAILY_BY_REGION :: "agg_daily_by_region list"

datatype phase = STAGING | CHANNELS | FACTS | AGGREGATIONS | CLEANUP | SUMMARY

text \<open>
  The calls on the connection that can raise: \<open>connect\<close>, the \<open>n\<close>-th
  \<open>cursor.execute\<close> of a phase, the \<open>commit\<close> and the \<open>rollback\<close> that follow a phase, the
  \<open>rollback\<close> of the outermost handler, and \<open>close\<close>.
\<close>

datatype op = Connect | Execute phase nat | Commit phase | Rollback phase | OuterRollback
  | Close

text \<open>What a run leaves in the log: the phases it invoked and the transactions it ended.\<close>

datatype event = Invoked phase | Committed | RolledBack | Closed

text \<open>
  The connection of one run. \<open>committed\<close> is the warehouse as every other session sees
  it, \<open>session\<close> the warehouse as this session sees it, with the changes of its open
  transaction; the temporary tables belong to the session.
\<close>

record connection =
  committed :: database
  session :: database
  TEMP_VIDEOS :: "(video_record option \<times> string) list"
  TEMP_CHANNELS :: "channel_record list"
  events :: "event list"

text \<open>
  What a run meets outside the program: which calls raise, whether the session runs
  with \<open>AUTOCOMMIT\<close> (the connector's default unless the account says otherwise), the
  clock at each phase, the files of today's partition, the default of the column
  \<open>last_updated\<close>, and the warehouse's \<open>AVG\<close>.
\<close>

record env =
  raises :: "op \<Rightarrow> bool"
  autocommit :: bool
  clock_of :: "phase \<Rightarrow> clock"
  videos_files :: "(string \<times> video_record option list) list"
  channels_files :: "channels_file list"
  last_updated_default :: "string option"
  AVG :: "pyfloat list \<Rightarrow> pyfloat"

definition connect :: "database \<Rightarrow> connection" where
  "connect db = \<lparr> committed = db, session = db, TEMP_VIDEOS = [], TEMP_CHANNELS = [],
     events = [] \<rparr>"

text \<open>
  A computation on the connection ends with the exception it raised, or \<open>None\<close>, and
  the connection as it left it.
\<close>

type_synonym outcome = "error option \<times> connection"

definition and_next :: "outcome \<Rightarrow> (connection \<Rightarrow> outcome) \<Rightarrow> outcome" where
  "and_next r f = (case r of (None, c) \<Rightarrow> f c | (Some e, c) \<Rightarrow> (Some e, c))"

text \<open>
  \<open>self.cursor.execute(...)\<close>: a statement that raises changes nothing; one that succeeds
  is committed at once when the session runs with \<open>AUTOCOMMIT\<close>.
\<close>

definition execute :: "env \<Rightarrow> phase \<Rightarrow> nat \<Rightarrow> (connection \<Rightarrow> connection) \<Rightarrow> connection \<Rightarrow> outcome" where
  "execute e p i stmt c =
     (if raises e (Execute p i) then (Some WarehouseError, c)
      else let c' = stmt c
           in (None, if autocommit e then c' \<lparr> committed := session c' \<rparr> else c'))"

text \<open>\<open>self.conn.commit()\<close> and \<open>self.conn.rollback()\<close>\<close>

definition commit :: "env \<Rightarrow> phase \<Rightarrow> connection \<Rightarrow> outcome" where
  "commit e p c =
     (if raises e (Commit p) then (Some WarehouseError, c)
      else (None, c \<lparr> committed := session c, events := events c @ [Committed] \<rparr>))"

definition rollback :: "env \<Rightarrow> op \<Rightarrow> connection \<Rightarrow> outcome" where
  "rollback e call c =
     (if raises e call then (Some WarehouseError, c)
      else (None, c \<lparr> session := committed c, events := events c @ [RolledBack] \<rparr>))"

definition invoked :: "phase \<Rightarrow> connection \<Rightarrow> connection" where
  "invoked p c = c \<lparr> events := events c @ [Invoked p] \<rparr>"

subsection \<open>The statements\<close>

text \<open>\<open>CREATE TABLE IF NOT EXISTS\<close> and \<open>CREATE SCHEMA IF NOT EXISTS\<close> change no row.\<close>

definition create_if_not_exists :: "connection \<Rightarrow> connection" where
  "create_if_not_exists c = c"

text \<open>
  \<open>CREATE OR REPLACE TEMPORARY TABLE TEMP_VIDEOS AS SELECT value AS raw_json,
  METADATA$FILENAME AS file_name ... LATERAL FLATTEN(input => $1)\<close> over the files
  \<open>LIKE '%videos_%'\<close>
\<close>

definition create_temp_videos :: "env \<Rightarrow> connection \<Rightarrow> connection" where
  "create_temp_videos e c =
     c \<lparr> TEMP_VIDEOS := concat (map (\<lambda>(f, xs). map (\<lambda>x. (x, f)) xs) (videos_files e)) \<rparr>"

text \<open>
  \<open>INSERT INTO RAW.STG_VIDEOS (raw_json, file_name) SELECT raw_json, file_name FROM
  TEMP_VIDEOS\<close>; \<open>load_timestamp\<close> takes its default, \<open>CURRENT_TIMESTAMP()\<close>.
\<close>

definition insert_stg_videos :: "env \<Rightarrow> connection \<Rightarrow> connection" where
  "insert_stg_videos e c =
     c \<lparr> session := (session c) \<lparr> STG_VIDEOS := STG_VIDEOS (session c) @
         map (\<lambda>(x, f). \<lparr> raw_json = x,
                          load_timestamp = CURRENT_TIMESTAMP (clock_of e STAGING),
                          file_name = f \<rparr>) (TEMP_VIDEOS c) \<rparr> \<rparr>"

definition create_temp_channels :: "env \<Rightarrow> connection \<Rightarrow> connection" where
  "create_temp_channels e c = c \<lparr> TEMP_CHANNELS := select_temp_channels (channels_files e) \<rparr>"

definition merge_into_dim_channels :: "env \<Rightarrow> connection \<Rightarrow> connection" where
  "merge_into_dim_channels e c =
     c \<lparr> session := (session c) \<lparr> DIM_CHANNELS :=
         merge_dim_channels (clock_of e CHANNELS) (last_updated_default e) (TEMP_CHANNELS c)
           (DIM_CHANNELS (session c)) \<rparr> \<rparr>"

definition merge_into_fact_videos :: "connection \<Rightarrow> connection" where
  "merge_into_fact_videos c =
     c \<lparr> session := (session c) \<lparr> FACT_VIDEOS :=
         FactMerger (STG_VIDEOS (session c)) (FACT_VIDEOS (session c)) \<rparr> \<rparr>"

definition insert_into_fact_videos :: "connection \<Rightarrow> connection" where
  "insert_into_fact_videos c =
     c \<lparr> session := (session c) \<lparr> FACT_VIDEOS :=
         insert_fact_videos (STG_VIDEOS (session c)) (FACT_VIDEOS (session c)) \<rparr> \<rparr>"

text \<open>\<open>DELETE FROM ANALYTICS.AGG_DAILY_BY_REGION WHERE analysis_date = CURRENT_DATE()\<close>\<close>

definition delete_aggregations :: "env \<Rightarrow> connection \<Rightarrow> connection" where
  "delete_aggregations e c =
     c \<lparr> session := (session c) \<lparr> AGG_DAILY_BY_REGION :=
         filter (\<lambda>a. analysis_date a \<noteq> CURRENT_DATE (clock_of e AGGREGATIONS))
           (AGG_DAILY_BY_REGION (session c)) \<rparr> \<rparr>"

definition insert_aggregations :: "env \<Rightarrow> connection \<Rightarrow> connection" where
  "insert_aggregations e c =
     c \<lparr> session := (session c) \<lparr> AGG_DAILY_BY_REGION :=
         AGG_DAILY_BY_REGION (session c) @
         select_aggregations (AVG e) (CURRENT_DATE (clock_of e AGGREGATIONS))
           (FACT_VIDEOS (session c)) (DIM_CHANNELS (session c)) \<rparr> \<rparr>"

text \<open>\<open>TRUNCATE TABLE RAW.STG_VIDEOS\<close>\<close>

definition truncate_stg_videos :: "connection \<Rightarrow> connection" where
  "truncate_stg_videos c = c \<lparr> session := (session c) \<lparr> STG_VIDEOS := [] \<rparr> \<rparr>"

subsection \<open>The phases\<close>

text \<open>
  The methods of \<open>SnowflakeLoaderService\<close> (\<open>function_app.py\<close>), each the sequence of its
  \<open>cursor.execute\<close> calls.
\<close>

definition service_load_videos_to_staging :: "env \<Rightarrow> connection \<Rightarrow> outcome" where
  "service_load_videos_to_staging e c =
     and_next (execute e STAGING 0 create_if_not_exists c) (\<lambda>c.
     and_next (execute e STAGING 1 (create_temp_videos e) c) (\<lambda>c.
     execute e STAGING 2 (insert_stg_videos e) c))"

definition service_load_channels :: "env \<Rightarrow> connection \<Rightarrow> outcome" where
  "service_load_channels e c =
     and_next (execute e CHANNELS 0 (create_temp_channels e) c) (\<lambda>c.
     execute e CHANNELS 1 (merge_into_dim_channels e) c)"

definition service_load_video_facts :: "env \<Rightarrow> connection \<Rightarrow> outcome" where
  "service_load_video_facts e c = execute e FACTS 0 merge_into_fact_videos c"

definition service_refresh_aggregations :: "env \<Rightarrow> connection \<Rightarrow> outcome" where
  "service_refresh_aggregations e c =
     and_next (execute e AGGREGATIONS 0 create_if_not_exists c) (\<lambda>c.
     and_next (execute e AGGREGATIONS 1 create_if_not_exists c) (\<lambda>c.
     and_next (execute e AGGREGATIONS 2 (delete_aggregations e) c) (\<lambda>c.
     execute e AGGREGATIONS 3 (insert_aggregations e) c)))"

definition service_cleanup_staging :: "env \<Rightarrow> connection \<Rightarrow> outcome" where
  "service_cleanup_staging e c = execute e CLEANUP 0 truncate_stg_videos c"

text \<open>The methods of \<open>SnowflakeLoader\<close> (\<open>snowflake_loader.py\<close>).\<close>

definition loader_load_videos_to_staging :: "env \<Rightarrow> connection \<Rightarrow> outcome" where
  "loader_load_videos_to_staging e c =
     and_next (execute e STAGING 0 create_if_not_exists c) (\<lambda>c.
     and_next (execute e STAGING 1 (create_temp_videos e) c) (\<lambda>c.
     execute e STAGING 2 (insert_stg_videos e) c))"

definition loader_load_channels :: "env \<Rightarrow> connection \<Rightarrow> outcome" where
  "loader_load_channels e c =
     and_next (execute e CHANNELS 0 (create_temp_channels e) c) (\<lambda>c.
     execute e CHANNELS 1 (merge_into_dim_channels e) c)"

definition loader_load_video_facts :: "env \<Rightarrow> connection \<Rightarrow> outcome" where
  "loader_load_video_facts e c = execute e FACTS 0 insert_into_fact_videos c"

definition loader_refresh_aggregations :: "env \<Rightarrow> connection \<Rightarrow> outcome" where
  "loader_refresh_aggregations e c =
     and_next (execute e AGGREGATIONS 0 (delete_aggregations e) c) (\<lambda>c.
     execute e AGGREGATIONS 1 (insert_aggregations e) c)"

definition loader_cleanup_staging :: "env \<Rightarrow> connection \<Rightarrow> outcome" where
  "loader_cleanup_staging e c = execute e CLEANUP 0 truncate_stg_videos c"

text \<open>\<open>print_summary\<close>: two queries, which change nothing.\<close>

definition loader_print_summary :: "env \<Rightarrow> connection \<Rightarrow> outcome" where
  "loader_print_summary e c =
     and_next (execute e SUMMARY 0 (\<lambda>c. c) c) (\<lambda>c. execute e SUMMARY 1 (\<lambda>c. c) c)"

section \<open>LoadOrchestrator\<close>

text \<open>
  One guarded step of \<open>SnowflakeLoaderService.load_todays_data\<close>:
  \<open>try: phase(); self.conn.commit()\<close> \<open>except Exception: self.conn.rollback()\<close>. The step
  ends with \<open>Inr True\<close> when the phase ran and was committed, with \<open>Inr False\<close> when the
  handler ran, and with \<open>Inl\<close> when the handler's own \<open>rollback\<close> raised.
\<close>

definition guarded ::
  "env \<Rightarrow> phase \<Rightarrow> (connection \<Rightarrow> outcome) \<Rightarrow> connection \<Rightarrow> (error + bool) \<times> connection" where
  "guarded e p body c =
     (case and_next (body (invoked p c)) (commit e p) of
        (None, c1) \<Rightarrow> (Inr True, c1)
      | (Some x, c1) \<Rightarrow>
          (case rollback e (Rollback p) c1 of
             (None, c2) \<Rightarrow> (Inr False, c2)
           | (Some y, c2) \<Rightarrow> (Inl y, c2)))"

text \<open>After a critical step the handler has \<open>return False\<close>; after a non-critical one the
  run goes on.\<close>

definition critical ::
  "(error + bool) \<times> connection \<Rightarrow> (connection \<Rightarrow> (error + bool) \<times> connection) \<Rightarrow>
     (error + bool) \<times> connection" where
  "critical r rest =
     (case r of (Inl x, c) \<Rightarrow> (Inl x, c)
      | (Inr b, c) \<Rightarrow> if b then rest c else (Inr False, c))"

definition non_critical ::
  "(error + bool) \<times> connection \<Rightarrow> (connection \<Rightarrow> (error + bool) \<times> connection) \<Rightarrow>
     (error + bool) \<times> connection" where
  "non_critical r rest = (case r of (Inl x, c) \<Rightarrow> (Inl x, c) | (Inr b, c) \<Rightarrow> rest c)"

text \<open>
  The outermost handler, \<open>except Exception: self.conn.rollback(); return False\<close>, and
  \<open>finally: self.close()\<close>.
\<close>

definition outer_handler :: "env \<Rightarrow> (error + bool) \<times> connection \<Rightarrow> (error + bool) \<times> connection" where
  "outer_handler e r =
     (case r of
        (Inl x, c) \<Rightarrow>
          (case rollback e OuterRollback c of
             (None, c1) \<Rightarrow> (Inr False, c1)
           | (Some y, c1) \<Rightarrow> (Inl y, c1))
      | (Inr b, c) \<Rightarrow> (Inr b, c))"

definition finally_close :: "env \<Rightarrow> (error + bool) \<times> connection \<Rightarrow> (error + bool) \<times> connection" where
  "finally_close e r =
     (case r of (x, c) \<Rightarrow>
        if raises e Close then (Inl WarehouseError, c)
        else (x, c \<lparr> events := events c @ [Closed] \<rparr>))"

text \<open>
  \<open>SnowflakeLoaderService.load_todays_data\<close> on the warehouse \<open>db\<close>: the value it returns,
  or the exception that leaves it, and the connection at the end.
\<close>

definition service_load_todays_data :: "env \<Rightarrow> database \<Rightarrow> (error + bool) \<times> connection" where
  "service_load_todays_data e db =
     (if raises e Connect then (Inr False, connect db)
      else finally_close e (outer_handler e (
        critical (guarded e STAGING (service_load_videos_to_staging e) (connect db)) (\<lambda>c.
        critical (guarded e CHANNELS (service_load_channels e) c) (\<lambda>c.
        critical (guarded e FACTS (service_load_video_facts e) c) (\<lambda>c.
        non_critical (guarded e AGGREGATIONS (service_refresh_aggregations e) c) (\<lambda>c.
        non_critical (guarded e CLEANUP (service_cleanup_staging e) c) (\<lambda>c.
        (Inr True, c)))))))))"

text \<open>
  \<open>SnowflakeLoader.load_todays_data\<close> on the connection its constructor opened: one
  \<open>try\<close> around the five phases and the summary, \<open>return False\<close> in its handler, and no
  \<open>commit\<close> or \<open>rollback\<close>.
\<close>

definition loader_load_todays_data :: "env \<Rightarrow> connection \<Rightarrow> bool \<times> connection" where
  "loader_load_todays_data e c =
     (case
        and_next (loader_load_videos_to_staging e (invoked STAGING c)) (\<lambda>c.
        and_next (loader_load_channels e (invoked CHANNELS c)) (\<lambda>c.
        and_next (loader_load_video_facts e (invoked FACTS c)) (\<lambda>c.
        and_next (loader_refresh_aggregations e (invoked AGGREGATIONS c)) (\<lambda>c.
        and_next (loader_cleanup_staging e (invoked CLEANUP c)) (\<lambda>c.
        loader_print_summary e (invoked SUMMARY c))))))
      of (None, c1) \<Rightarrow> (True, c1) | (Some x, c1) \<Rightarrow> (False, c1))"

text \<open>
  A phase of \<open>SnowflakeLoaderService\<close> succeeds when none of its statements raises and
  its \<open>commit\<close> does not raise.
\<close>

fun statements :: "phase \<Rightarrow> nat" where
  "statements STAGING = 3"
| "statements CHANNELS = 2"
| "statements FACTS = 1"
| "statements AGGREGATIONS = 4"
| "statements CLEANUP = 1"
| "statements SUMMARY = 0"

definition succeeds :: "env \<Rightarrow> phase \<Rightarrow> bool" where
  "succeeds e p =
     (list_all (\<lambda>i. \<not> raises e (Execute p i)) [0..<statements p] \<and> \<not> raises e (Commit p))"

section \<open>RecordAssembler\<close>

text \<open>
  The catalog as \<open>collect_data\<close> meets it: the items of the response to each request, or
  the exception \<open>execute()\<close> raises, and the text of \<open>datetime.now().isoformat()\<close> at the
  \<open>n\<close>-th record. A response without \<open>items\<close> is the empty list.
\<close>

record search_id =
  kind :: "string option"
  videoId :: "string option"

record channel_snippet =
  channel_snippet_title :: "string option"
  country :: "string option"

record channel_statistics =
  subscriberCount :: "pyval option"
  videoCount :: "pyval option"

record channel_item =
  channel_item_id :: "string option"
  channel_snippet :: "channel_snippet option"
  channel_statistics :: "channel_statistics option"

record youtube =
  search_list :: "string \<Rightarrow> string \<Rightarrow> nat \<Rightarrow> error + search_id option list"
  videos_list :: "string list \<Rightarrow> error + video_item list"
  channels_list :: "string list \<Rightarrow> error + channel_item list"
  isoformat_now :: "nat \<Rightarrow> string"

text \<open>
  The loop of \<open>search_videos\<close> over the items, \<open>item['id']\<close> being \<open>None\<close> when the key is
  absent.
\<close>

fun video_ids_of :: "search_id option list \<Rightarrow> error + string list" where
  "video_ids_of [] = Inr []"
| "video_ids_of (item # items) =
     and_then (subscript item) (\<lambda>i.
     and_then (subscript (kind i)) (\<lambda>k.
       if k = ''youtube#video'' then
         and_then (subscript (videoId i)) (\<lambda>v.
         and_then (video_ids_of items) (\<lambda>vs. Inr (v # vs)))
       else video_ids_of items))"

text \<open>\<open>search_videos\<close>: any exception gives the empty list.\<close>

definition search_videos :: "youtube \<Rightarrow> string \<Rightarrow> string \<Rightarrow> nat \<Rightarrow> string list" where
  "search_videos yt keyword region_code max_results =
     (case and_then (search_list yt keyword region_code max_results) video_ids_of of
        Inl x \<Rightarrow> [] | Inr ids \<Rightarrow> ids)"

text \<open>\<open>xs[i:i+n] for i in range(0, len(xs), n)\<close>\<close>

function batches :: "nat \<Rightarrow> 'a list \<Rightarrow> 'a list list" where
  "batches n xs = (if n = 0 \<or> xs = [] then [] else take n xs # batches n (drop n xs))"
  by pat_completeness auto
termination
  by (relation "measure (\<lambda>(n, xs). length xs)") auto

declare batches.simps [simp del]

text \<open>One request per batch, the items of all responses in order.\<close>

fun gather :: "('a list \<Rightarrow> error + 'b list) \<Rightarrow> 'a list list \<Rightarrow> error + 'b list" where
  "gather f [] = Inr []"
| "gather f (b # bs) = and_then (f b) (\<lambda>xs. and_then (gather f bs) (\<lambda>ys. Inr (xs @ ys)))"

text \<open>
  \<open>get_video_details\<close> and \<open>get_channel_details\<close> of \<open>YouTubeCollector\<close>: one request; of
  \<open>YouTubeCollectorService\<close>: one request per 50 identifiers. Any exception gives the
  empty list.
\<close>

definition get_video_details :: "youtube \<Rightarrow> string list \<Rightarrow> video_item list" where
  "get_video_details yt video_ids =
     (case videos_list yt video_ids of Inl x \<Rightarrow> [] | Inr items \<Rightarrow> items)"

definition get_channel_details :: "youtube \<Rightarrow> string list \<Rightarrow> channel_item list" where
  "get_channel_details yt channel_ids =
     (case channels_list yt channel_ids of Inl x \<Rightarrow> [] | Inr items \<Rightarrow> items)"

definition service_get_video_details :: "youtube \<Rightarrow> string list \<Rightarrow> video_item list" where
  "service_get_video_details yt video_ids =
     (case gather (videos_list yt) (batches 50 video_ids) of Inl x \<Rightarrow> [] | Inr items \<Rightarrow> items)"

definition service_get_channel_details :: "youtube \<Rightarrow> string list \<Rightarrow> channel_item list" where
  "service_get_channel_details yt channel_ids =
     (case gather (channels_list yt) (batches 50 channel_ids) of
        Inl x \<Rightarrow> [] | Inr items \<Rightarrow> items)"

text \<open>
  The body of the loop over the videos: the classification, the engagement rate and
  the dictionary, its entries evaluated in the order of the source.
\<close>

definition video_record_of ::
  "config \<Rightarrow> string \<Rightarrow> string \<Rightarrow> string \<Rightarrow> video_item \<Rightarrow> error + video_record" where
  "video_record_of cfg now keyword region video =
     and_then (classify_video cfg video) (\<lambda>classification.
     and_then (calculate_engagement (get_or (video_statistics video)
         \<lparr> viewCount = None, likeCount = None, commentCount = None \<rparr>)) (\<lambda>engagement.
     and_then (subscript (video_item_id video)) (\<lambda>vid.
     and_then (subscript (video_snippet video)) (\<lambda>sn.
     and_then (subscript (channelId sn)) (\<lambda>ch.
     and_then (subscript (categoryId sn)) (\<lambda>cat.
     and_then (py_int cat) (\<lambda>category.
     and_then (subscript (title sn)) (\<lambda>ttl.
     and_then (subscript (publishedAt sn)) (\<lambda>pub.
     and_then (subscript (video_statistics video)) (\<lambda>st.
     and_then (py_int (get_or (viewCount st) (PyInt 0))) (\<lambda>views.
     and_then (py_int (get_or (likeCount st) (PyInt 0))) (\<lambda>likes.
     and_then (py_int (get_or (commentCount st) (PyInt 0))) (\<lambda>comments.
       Inr \<lparr> final_sentiment = final_sentiment classification,
             classification_method = classification_method classification,
             positive_keyword_count = positive_keyword_count classification,
             negative_keyword_count = negative_keyword_count classification,
             video_id = vid, video_channel_id = ch, category_id = category,
             video_title = ttl, video_description = get_or (description sn) '''',
             video_tags = get_or (tags sn) [], published_at = pub, view_count = views,
             like_count = likes, comment_count = comments, engagement_rate = engagement,
             search_keyword = keyword, search_region = region,
             collected_at = now \<rparr>)))))))))))))"

text \<open>
  The state of the collection: \<open>all_videos\<close> and the dictionary \<open>all_channels\<close>, its items
  in insertion order. \<open>AList.update\<close> is \<open>d[k] = v\<close>: the value of a key that is there
  is replaced at its place, a new key goes to the end.
\<close>

type_synonym collection = "video_record list \<times> (string \<times> channel_record option) list"

fun process_videos ::
  "config \<Rightarrow> youtube \<Rightarrow> string \<Rightarrow> string \<Rightarrow> video_item list \<Rightarrow> collection \<Rightarrow>
     error + collection" where
  "process_videos cfg yt keyword region [] st = Inr st"
| "process_videos cfg yt keyword region (video # videos) st =
     and_then (video_record_of cfg (isoformat_now yt (length (fst st))) keyword region video)
       (\<lambda>video_record.
          process_videos cfg yt keyword region videos
            (fst st @ [video_record],
             AList.update (video_channel_id video_record) None (snd st)))"

fun process_keywords ::
  "(youtube \<Rightarrow> string list \<Rightarrow> video_item list) \<Rightarrow> config \<Rightarrow> youtube \<Rightarrow> string \<Rightarrow>
     string list \<Rightarrow> collection \<Rightarrow> error + collection" where
  "process_keywords details cfg yt region [] st = Inr st"
| "process_keywords details cfg yt region (keyword # search_terms) st =
     (let video_ids = search_videos yt keyword region (VIDEOS_PER_KEYWORD cfg)
      in if video_ids = [] then process_keywords details cfg yt region search_terms st
         else and_then (process_videos cfg yt keyword region (details yt video_ids) st)
                (process_keywords details cfg yt region search_terms))"

fun process_regions ::
  "(youtube \<Rightarrow> string list \<Rightarrow> video_item list) \<Rightarrow> config \<Rightarrow> youtube \<Rightarrow> string list \<Rightarrow>
     collection \<Rightarrow> error + collection" where
  "process_regions details cfg yt [] st = Inr st"
| "process_regions details cfg yt (region # regions) st =
     and_then (process_keywords details cfg yt region (SEARCH_KEYWORDS cfg) st)
       (process_regions details cfg yt regions)"

text \<open>The ChannelRecord of an item of the channel lookup.\<close>

definition channel_record_of :: "channel_item \<Rightarrow> error + channel_record" where
  "channel_record_of channel =
     and_then (subscript (channel_item_id channel)) (\<lambda>cid.
     and_then (subscript (channel_snippet channel)) (\<lambda>sn.
     and_then (subscript (channel_snippet_title sn)) (\<lambda>ttl.
     and_then (subscript (channel_statistics channel)) (\<lambda>st.
     and_then (py_int (get_or (subscriberCount st) (PyInt 0))) (\<lambda>subscribers.
     and_then (py_int (get_or (videoCount st) (PyInt 0))) (\<lambda>videos.
       Inr \<lparr> channel_id = cid, channel_title = ttl,
             channel_country = get_or (country sn) ''UNKNOWN'',
             subscriber_count = subscribers, video_count = videos \<rparr>))))))"

text \<open>
  The second loop of \<open>YouTubeCollector.collect_data\<close>: for each batch of 50 keys, each
  item of the lookup is stored under its own identifier.
\<close>

fun store_channels ::
  "channel_item list \<Rightarrow> (string \<times> channel_record option) list \<Rightarrow>
     error + (string \<times> channel_record option) list" where
  "store_channels [] all_channels = Inr all_channels"
| "store_channels (channel # channels) all_channels =
     and_then (channel_record_of channel) (\<lambda>r.
       store_channels channels (AList.update (channel_id r) (Some r) all_channels))"

fun fetch_channels ::
  "youtube \<Rightarrow> string list list \<Rightarrow> (string \<times> channel_record option) list \<Rightarrow>
     error + (string \<times> channel_record option) list" where
  "fetch_channels yt [] all_channels = Inr all_channels"
| "fetch_channels yt (batch # bs) all_channels =
     and_then (store_channels (get_channel_details yt batch) all_channels) (fetch_channels yt bs)"

text \<open>
  \<open>YouTubeCollector.collect_data\<close> (\<open>youtube_collector.py\<close>): it returns
  \<open>list(all_channels.values())\<close>, where \<open>None\<close> is the placeholder of a channel no lookup
  has filled.
\<close>

definition collect_data ::
  "config \<Rightarrow> youtube \<Rightarrow> error + video_record list \<times> channel_record option list" where
  "collect_data cfg yt =
     and_then (process_regions get_video_details cfg yt (REGIONS cfg) ([], [])) (\<lambda>st.
     and_then (fetch_channels yt (batches 50 (map fst (snd st))) (snd st)) (\<lambda>all_channels.
       Inr (fst st, map snd all_channels)))"

text \<open>The list comprehension over the items of the lookup.\<close>

fun channel_records_of :: "channel_item list \<Rightarrow> error + channel_record list" where
  "channel_records_of [] = Inr []"
| "channel_records_of (channel # channels) =
     and_then (channel_record_of channel) (\<lambda>r.
     and_then (channel_records_of channels) (\<lambda>rs. Inr (r # rs)))"

text \<open>
  \<open>YouTubeCollectorService.collect_data\<close> (\<open>function_app.py\<close>): it returns one record
  per item of the lookup.
\<close>

definition service_collect_data ::
  "config \<Rightarrow> youtube \<Rightarrow> error + video_record list \<times> channel_record list" where
  "service_collect_data cfg yt =
     and_then (process_regions service_get_video_details cfg yt (REGIONS cfg) ([], [])) (\<lambda>st.
     and_then (channel_records_of (service_get_channel_details yt (map fst (snd st))))
       (\<lambda>channel_records. Inr (fst st, channel_records)))"

text \<open>
  The lookup answers a request when it returns one item for each identifier asked
  for and no other, each with the fields a ChannelRecord needs.
\<close>

definition answers :: "youtube \<Rightarrow> string list \<Rightarrow> bool" where
  "answers yt channel_ids =
     (case channels_list yt channel_ids of
        Inl x \<Rightarrow> False
      | Inr items \<Rightarrow>
          distinct (map channel_item_id items) \<and>
          set (map channel_item_id items) = set (map Some channel_ids) \<and>
          list_all (\<lambda>i. case channel_record_of i of Inl x \<Rightarrow> False | Inr r \<Rightarrow> True) items)"

section \<open>Example inputs\<close>

definition example_snippet :: snippet where
  "example_snippet = \<lparr> categoryId = Some (PyStr ''22''), title = Some ''Best TUTORIAL ever'',
     description = None, tags = Some [''worst'', ''bad''], channelId = Some ''UC1'',
     publishedAt = Some ''2024-01-01T00:00:00Z'' \<rparr>"

definition example_video :: video_item where
  "example_video = \<lparr> video_item_id = Some ''v1'', video_snippet = Some example_snippet,
     video_statistics = None \<rparr>"

definition malformed_category_video :: video_item where
  "malformed_category_video = \<lparr> video_item_id = Some ''v2'',
     video_snippet = Some (example_snippet \<lparr> categoryId := Some (PyStr ''abc'') \<rparr>),
     video_statistics = None \<rparr>"

definition uncategorized_snippet :: snippet where
  "uncategorized_snippet = example_snippet \<lparr> categoryId := Some (PyStr ''99'') \<rparr>"

definition uncategorized_video :: video_item where
  "uncategorized_video = \<lparr> video_item_id = Some ''v3'',
     video_snippet = Some uncategorized_snippet, video_statistics = None \<rparr>"

definition stats_200_10_10 :: statistics where
  "stats_200_10_10 = \<lparr> viewCount = Some (PyStr ''200''), likeCount = Some (PyStr ''10''),
     commentCount = Some (PyStr ''10'') \<rparr>"

definition stats_1_2 :: statistics where
  "stats_1_2 = \<lparr> viewCount = Some (PyStr ''1''), likeCount = Some (PyStr ''2''),
     commentCount = None \<rparr>"

definition stats_overflow :: statistics where
  "stats_overflow = \<lparr> viewCount = Some (PyStr ''1''), likeCount = Some (PyInt (2 ^ 1024)),
     commentCount = Some (PyStr ''0'') \<rparr>"

definition stats_overflow_comments :: statistics where
  "stats_overflow_comments = \<lparr> viewCount = Some (PyStr ''1''), likeCount = Some (PyStr ''0''),
     commentCount = Some (PyInt (2 ^ 1024)) \<rparr>"

definition stats_just_above :: statistics where
  "stats_just_above = \<lparr> viewCount = Some (PyInt 2097152),
     likeCount = Some (PyInt 2097153), commentCount = Some (PyInt 0) \<rparr>"

definition example_clock :: clock where
  "example_clock = \<lparr> CURRENT_DATE = ''2024-05-02'', CURRENT_TIMESTAMP = ''2024-05-02 06:00:00'' \<rparr>"

definition later_clock :: clock where
  "later_clock = \<lparr> CURRENT_DATE = ''2024-05-02'', CURRENT_TIMESTAMP = ''2024-05-02 06:10:00'' \<rparr>"

definition channel_a :: channel_record where
  "channel_a = \<lparr> channel_id = ''UCa'', channel_title = ''Alpha'', channel_country = ''US'',
     subscriber_count = 10, video_count = 3 \<rparr>"

definition channel_a_newer :: channel_record where
  "channel_a_newer = channel_a \<lparr> channel_title := ''Alpha 2'', subscriber_count := 12 \<rparr>"

definition channel_b :: channel_record where
  "channel_b = \<lparr> channel_id = ''UCb'', channel_title = ''Beta'', channel_country = ''UNKNOWN'',
     subscriber_count = 0, video_count = 1 \<rparr>"

definition example_channels_files :: "channels_file list" where
  "example_channels_files =
     [(''raw/2024/05/02/channels_20240502_060000.json'', [Some channel_a, None]),
      (''raw/2024/05/02/channels_20240502_180000.json'', [Some channel_a_newer, Some channel_b])]"

definition example_dim :: "dim_channels list" where
  "example_dim =
     [\<lparr> channel_id = ''UCa'', channel_title = ''Old'', channel_country = ''GB'',
        subscriber_count = 1, video_count = 1, first_seen_date = Some ''2024-01-01'',
        last_updated = Some ''2024-01-01 06:00:00'' \<rparr>,
      \<lparr> channel_id = ''UCz'', channel_title = ''Zeta'', channel_country = ''CA'',
        subscriber_count = 5, video_count = 2, first_seen_date = Some ''2024-02-01'',
        last_updated = None \<rparr>]"

definition video_v1 :: video_record where
  "video_v1 = \<lparr> final_sentiment = POSITIVE, classification_method = CATEGORY_BASED,
     positive_keyword_count = 1, negative_keyword_count = 0,
     video_id = ''v1'', video_channel_id = ''UCa'', category_id = 28,
     video_title = ''Best AI technology'', video_description = '''', video_tags = [],
     published_at = ''2024-05-02T01:00:00Z'', view_count = 200, like_count = 10,
     comment_count = 10, engagement_rate = Finite 10, search_keyword = ''technology'',
     search_region = ''US'', collected_at = ''2024-05-02T06:00:00.000000'' \<rparr>"

definition video_v1_again :: video_record where
  "video_v1_again = video_v1 \<lparr> search_keyword := ''AI'' \<rparr>"

text \<open>One video found under two search keywords of one run, as the staging load leaves it.\<close>

definition example_staging :: "stg_videos list" where
  "example_staging =
     [\<lparr> raw_json = Some video_v1, load_timestamp = ''2024-05-02 06:05:00'',
        file_name = ''raw/2024/05/02/videos_20240502_060000.json'' \<rparr>,
      \<lparr> raw_json = Some video_v1_again, load_timestamp = ''2024-05-02 06:05:00'',
        file_name = ''raw/2024/05/02/videos_20240502_060000.json'' \<rparr>]"

text \<open>A warehouse before a run, and a run in which exactly one call raises.\<close>

definition example_db :: database where
  "example_db = \<lparr> STG_VIDEOS = [], DIM_CHANNELS = example_dim, FACT_VIDEOS = [],
     AGG_DAILY_BY_REGION =
       [\<lparr> analysis_date = ''2024-05-02'', agg_channel_country = ''GB'',
          agg_final_sentiment = NEUTRAL, agg_video_count = 1, total_views = 7,
          total_likes = 1, total_comments = 0, avg_engagement_rate = Finite 0 \<rparr>] \<rparr>"

definition mean :: "pyfloat list \<Rightarrow> pyfloat" where
  "mean xs = Finite (sum_list (map (\<lambda>x. case x of Finite r \<Rightarrow> r | _ \<Rightarrow> 0) xs) / of_nat (length xs))"

definition failing_env :: "op \<Rightarrow> env" where
  "failing_env call = \<lparr> raises = (\<lambda>c. c = call), autocommit = False,
     clock_of = (\<lambda>p. example_clock),
     videos_files = [(''raw/2024/05/02/videos_20240502_060000.json'',
                      [Some video_v1, Some video_v1_again])],
     channels_files = example_channels_files, last_updated_default = None, AVG = mean \<rparr>"

text \<open>
  A run with one region and one search keyword that finds one video, and a channel
  lookup that raises.
\<close>

definition one_keyword_config :: config where
  "one_keyword_config = Config \<lparr> REGIONS := [''US''], SEARCH_KEYWORDS := [''technology''],
     VIDEOS_PER_KEYWORD := 2 \<rparr>"

definition found_video :: video_item where
  "found_video = \<lparr> video_item_id = Some ''v1'',
     video_snippet = Some (example_snippet \<lparr> categoryId := Some (PyStr ''28'') \<rparr>),
     video_statistics = Some \<lparr> viewCount = None, likeCount = Some (PyStr ''3''),
       commentCount = None \<rparr> \<rparr>"

definition failing_lookup :: youtube where
  "failing_lookup = \<lparr>
     search_list = (\<lambda>keyword region n.
       Inr [Some \<lparr> kind = Some ''youtube#video'', videoId = Some ''v1'' \<rparr>]),
     videos_list = (\<lambda>ids. Inr [found_video]),
     channels_list = (\<lambda>ids. Inl ApiError),
     isoformat_now = (\<lambda>n. ''2024-05-02T06:00:00.000000'') \<rparr>"

text \<open>The same run with a lookup that answers every request.\<close>

definition answering_lookup :: youtube where
  "answering_lookup = failing_lookup \<lparr> channels_list := (\<lambda>ids.
     Inr (map (\<lambda>i. \<lparr> channel_item_id = Some i,
                      channel_snippet = Some \<lparr> channel_snippet_title = Some ''Alpha'',
                        country = None \<rparr>,
                      channel_statistics = Some \<lparr> subscriberCount = Some (PyStr ''10''),
                        videoCount = None \<rparr> \<rparr>) ids)) \<rparr>"

definition found_record :: video_record where
  "found_record = \<lparr> final_sentiment = POSITIVE, classification_method = CATEGORY_BASED,
     positive_keyword_count = 1, negative_keyword_count = 1,
     video_id = ''v1'', video_channel_id = ''UC1'', category_id = 28,
     video_title = ''Best TUTORIAL ever'', video_description = '''',
     video_tags = [''worst'', ''bad''], published_at = ''2024-01-01T00:00:00Z'',
     view_count = 0, like_count = 3, comment_count = 0, engagement_rate = Finite 0,
     search_keyword = ''technology'', search_region = ''US'',
     collected_at = ''2024-05-02T06:00:00.000000'' \<rparr>"

section \<open>Verified properties\<close>

lemma and_then_Inr [simp]: "and_then (Inr x) f = f x"
  by (simp add: and_then_def)

lemma and_then_Inl [simp]: "and_then (Inl e) f = Inl e"
  by (simp add: and_then_def)

subsection \<open>Integer literals\<close>

text \<open>
  \<open>int\<close> skips blanks at both ends and takes single underscores between digits; it does
  not skip the separators \<open>0x1C\<close> to \<open>0x1F\<close>, and it refuses a literal of more than
  \<open>int_max_str_digits\<close> digits.
\<close>

lemma int_skips_blanks: "py_int (PyStr ''  12_3 '') = Inr 123"
  by code_simp

lemma int_rejects_separator: "py_int (PyStr [CHR ''2'', CHR ''8'', CHR 0x1F]) = Inl ValueError"
  by code_simp

lemma int_refuses_long_literal:
  "int_max_str_digits < length (filter (\<lambda>c. c \<noteq> CHR ''_'') s) \<Longrightarrow> unsigned_val s = None"
  by (simp add: unsigned_val_def)

subsection \<open>Classifier\<close>



text \<open>
  C7, as stated, fails: a category code that is not the text of an integer is not
  treated as a code outside every set. \<open>int('abc')\<close> raises ValueError and the
  classifier raises with it.
\<close>

theorem malformed_category_raises:
  "classify_video Config malformed_category_video = Inl ValueError"
  by code_simp

text \<open>
  C7, amended. The classifier is a function of its configuration and its input alone.
  It raises exactly when the snippet, the category code or the title is absent
  (KeyError) or when \<open>int\<close> rejects the category code (ValueError, TypeError); a
  category code that converts to an integer outside the three configured sets gives
  UNKNOWN and UNCATEGORIZED.
\<close>

theorem classify_video_failure_modes:
  "(classify_video cfg video_data = Inl e \<longleftrightarrow>
      (case video_snippet video_data of
         None \<Rightarrow> e = KeyError
       | Some sn \<Rightarrow>
           (case categoryId sn of
              None \<Rightarrow> e = KeyError
            | Some cat \<Rightarrow>
                (case py_int cat of
                   Inl e' \<Rightarrow> e = e'
                 | Inr c \<Rightarrow> title sn = None \<and> e = KeyError)))) \<and>
   (video_snippet video_data = Some sn' \<and> categoryId sn' = Some cat' \<and> py_int cat' = Inr c' \<and>
    title sn' = Some ttl \<and> c' \<notin> set (POSITIVE_CATEGORIES cfg) \<and>
    c' \<notin> set (NEGATIVE_CATEGORIES cfg) \<and> c' \<notin> set (MIXED_CATEGORIES cfg) \<longrightarrow>
      (\<exists>r. classify_video cfg video_data = Inr r \<and> final_sentiment r = UNKNOWN \<and>
           classification_method r = UNCATEGORIZED))"
  by (auto simp: classify_video_def subscript_def Let_def
      split: option.splits sum.splits)

theorem classify_video_failure_modes_witness:
  "\<exists>r. classify_video Config uncategorized_video = Inr r \<and> final_sentiment r = UNKNOWN \<and>
     classification_method r = UNCATEGORIZED"
proof -
  have s: "video_snippet uncategorized_video = Some uncategorized_snippet"
    by (simp add: uncategorized_video_def)
  have c: "categoryId uncategorized_snippet = Some (PyStr ''99'')"
    by (simp add: uncategorized_snippet_def)
  have p: "py_int (PyStr ''99'') = Inr 99"
    by code_simp
  have t: "title uncategorized_snippet = Some ''Best TUTORIAL ever''"
    by (simp add: uncategorized_snippet_def example_snippet_def)
  have n: "(99::int) \<notin> set (POSITIVE_CATEGORIES Config) \<and> 99 \<notin> set (NEGATIVE_CATEGORIES Config)
      \<and> 99 \<notin> set (MIXED_CATEGORIES Config)"
    by (simp add: Config_def)
  from classify_video_failure_modes [of Config uncategorized_video KeyError
      uncategorized_snippet "PyStr ''99''" 99 "''Best TUTORIAL ever''"] s c p t n
  show ?thesis by blast
qed

subsection \<open>Rounding to a double\<close>

lemma round_half_even_upper: "of_int (round_half_even x) \<le> x + 1 / 2"
  unfolding round_half_even_def Let_def by (auto simp: algebra_simps) linarith+

lemma round_half_even_ge_int:
  assumes "of_int n \<le> x" shows "n \<le> round_half_even x"
proof -
  have "n \<le> \<lfloor>x\<rfloor>" using assms by (simp add: le_floor_iff)
  then show ?thesis unfolding round_half_even_def Let_def by auto
qed

lemma round_half_even_nonneg: "0 \<le> x \<Longrightarrow> 0 \<le> round_half_even x"
  using round_half_even_ge_int [of 0 x] by simp

lemma round_half_even_le_twice: 
  assumes "0 \<le> x" shows "of_int (round_half_even x) \<le> 2 * x"
proof (cases "x < 1 / 2")
  case True
  then have "\<lfloor>x\<rfloor> = 0" using assms by (simp add: floor_eq_iff)
  then have "round_half_even x = 0"
    using True unfolding round_half_even_def Let_def by simp
  then show ?thesis using assms by simp
next
  case False
  then show ?thesis using round_half_even_upper [of x] by linarith
qed

lemma pow2_pos: "0 < pow2 e"
  by (simp add: pow2_def)

lemma pow2_nat: "pow2 (int n) = 2 ^ n"
  by (simp add: pow2_def)

lemma pow2_add: "pow2 (a + b) = pow2 a * pow2 b"
proof -
  have "pow2 e = 2 powi e" for e
    by (simp add: pow2_def power_int_def field_simps)
  then show ?thesis by (simp add: power_int_add)
qed

lemma pow2_mono: "a \<le> b \<Longrightarrow> pow2 a \<le> pow2 b"
proof -
  have "pow2 e = 2 powi e" for e
    by (simp add: pow2_def power_int_def field_simps)
  then show "a \<le> b \<Longrightarrow> pow2 a \<le> pow2 b" by (simp add: power_int_increasing)
qed

lemma round_to_double_le_twice:
  assumes "0 \<le> x" and "x < pow2 1023"
  shows "\<exists>r. round_to_double x = Some r \<and> 0 \<le> r \<and> r \<le> 2 * x"
proof (cases "x = 0")
  case True
  then show ?thesis by (simp add: round_to_double_def)
next
  case False
  define q where "q = max (floor_log2 \<bar>x\<bar> - 52) (- 1074)"
  define r where "r = of_int (round_half_even (x / pow2 q)) * pow2 q"
  have t: "0 \<le> x / pow2 q" using assms pow2_pos [of q] by simp
  have r0: "0 \<le> r"
    unfolding r_def using round_half_even_nonneg [OF t] pow2_pos [of q] by simp
  have "of_int (round_half_even (x / pow2 q)) \<le> 2 * (x / pow2 q)"
    by (rule round_half_even_le_twice [OF t])
  then have r2: "r \<le> 2 * x"
    unfolding r_def using pow2_pos [of q] by (simp add: field_simps)
  have "pow2 1024 = 2 * pow2 1023"
    using pow2_add [of 1 1023] by (simp add: pow2_def)
  then have "\<bar>r\<bar> < pow2 1024" using r0 r2 assms by simp
  then have "round_to_double x = Some r"
    using False by (simp add: round_to_double_def Let_def q_def r_def)
  then show ?thesis using r0 r2 by simp
qed

lemma bit_length_bounds:
  "0 < n \<Longrightarrow> 0 < bit_length n \<and> 2 ^ nat (bit_length n - 1) \<le> n \<and> n < 2 ^ nat (bit_length n)"
proof (induction n rule: bit_length.induct)
  case (1 n)
  show ?case
  proof (cases "n = 1")
    case True
    then show ?thesis by (simp add: bit_length.simps [of 1] bit_length.simps [of 0])
  next
    case False
    then have h: "0 < n div 2" using "1.prems" by simp
    have ih: "0 < bit_length (n div 2) \<and> 2 ^ nat (bit_length (n div 2) - 1) \<le> n div 2 \<and> n div 2 < 2 ^ nat (bit_length (n div 2))"
      using "1.IH" "1.prems" h by simp
    define b where "b = bit_length (n div 2)"
    have bl: "bit_length n = 1 + b" using "1.prems" by (simp add: bit_length.simps [of n] b_def)
    have b0: "0 < b" and lo: "2 ^ nat (b - 1) \<le> n div 2" and hi: "n div 2 < 2 ^ nat b"
      using ih by (simp_all add: b_def)
    have e: "nat (1 + b - 1) = Suc (nat (b - 1))" using b0 by simp
    have e2: "nat (1 + b) = Suc (nat b)" using b0 by simp
    have "2 * 2 ^ nat (b - 1) \<le> n" using lo by linarith
    moreover have "n < 2 * 2 ^ nat b" using hi by linarith
    ultimately show ?thesis using b0 bl e e2 by simp
  qed
qed


lemma pow2_neg: "pow2 (- a) = 1 / pow2 a"
  using pow2_add [of a "- a"] pow2_pos [of a] by (simp add: pow2_def field_simps)

lemma floor_log2_le:
  assumes "0 < x" shows "pow2 (floor_log2 x) \<le> x"
proof -
  obtain p q where pq: "quotient_of x = (p, q)" by (cases "quotient_of x")
  have q0: "0 < q" using quotient_of_denom_pos [OF pq] .
  have x: "x = of_int p / of_int q" using quotient_of_div [OF pq] .
  have p0: "0 < p" using assms q0 x by (simp add: zero_less_divide_iff)
  define a where "a = bit_length p"
  define b where "b = bit_length q"
  have a: "0 < a" "2 ^ nat (a - 1) \<le> p"
    using bit_length_bounds [OF p0] by (simp_all add: a_def)
  have b: "0 < b" "q < 2 ^ nat b"
    using bit_length_bounds [OF q0] by (simp_all add: b_def)
  have lo: "pow2 (a - 1) \<le> of_int p"
  proof -
    have "(of_int (2 ^ nat (a - 1)) :: rat) \<le> of_int p" using a(2) by (simp only: of_int_le_iff)
    then show ?thesis using a(1) by (simp add: pow2_def)
  qed
  have hi: "of_int q \<le> pow2 b"
  proof -
    have "(of_int q :: rat) \<le> of_int (2 ^ nat b)" using b(2) by (simp only: of_int_le_iff)
    then show ?thesis using b(1) by (simp add: pow2_def)
  qed
  have "pow2 (a - b - 1) = pow2 (a - 1) * pow2 (- b)"
    using pow2_add [of "a - 1" "- b"] by (simp add: algebra_simps)
  also have "\<dots> = pow2 (a - 1) / pow2 b" by (simp add: pow2_neg)
  also have "\<dots> \<le> of_int p / of_int q"
    using lo hi q0 pow2_pos [of "a - 1"] by (intro frac_le) simp_all
  finally have low: "pow2 (a - b - 1) \<le> x" using x by simp
  show ?thesis
    using low pq by (auto simp: floor_log2_def Let_def a_def b_def)
qed

lemma round_to_double_ge_int:
  assumes n: "0 < n" "n < 2 ^ 53" and nx: "of_int n \<le> x" and r: "round_to_double x = Some r"
  shows "of_int n \<le> r"
proof -
  have "(0::rat) < of_int n" using n(1) by (simp only: of_int_0_less_iff)
  then have x0: "0 < x" using nx by linarith
  define q where "q = max (floor_log2 \<bar>x\<bar> - 52) (- 1074)"
  have r_eq: "r = of_int (round_half_even (x / pow2 q)) * pow2 q"
    using r x0 by (auto simp: round_to_double_def Let_def q_def split: if_splits)
  show ?thesis
  proof (cases "q \<le> 0")
    case True
    define k where "k = nat (- q)"
    have pq: "pow2 q = 1 / 2 ^ k" using True
      by (cases "q = 0") (simp_all add: pow2_def k_def)
    have "of_int (n * 2 ^ k) \<le> x / pow2 q"
      using nx by (simp add: pq mult_right_mono)
    then have "n * 2 ^ k \<le> round_half_even (x / pow2 q)"
      by (rule round_half_even_ge_int)
    then have "(of_int (n * 2 ^ k) :: rat) \<le> of_int (round_half_even (x / pow2 q))"
      by (simp only: of_int_le_iff)
    then have "of_int (n * 2 ^ k) * pow2 q \<le> r"
      unfolding r_eq using pow2_pos [of q] by (simp only: mult_le_cancel_right_pos)
    then show ?thesis by (simp add: pq)
  next
    case False
    then have q1: "1 \<le> q" by simp
    then have qe: "q = floor_log2 x - 52" using x0 by (simp add: q_def max_def split: if_splits)
    have "pow2 (52 + q) \<le> x" using floor_log2_le [OF x0] qe by (simp add: algebra_simps)
    then have "pow2 52 * pow2 q \<le> x" by (simp add: pow2_add)
    then have "pow2 52 \<le> x / pow2 q" using pow2_pos [of q] by (simp add: pos_le_divide_eq)
    then have "of_int (2 ^ 52) \<le> x / pow2 q" by (simp add: pow2_def)
    then have "2 ^ 52 \<le> round_half_even (x / pow2 q)"
      by (rule round_half_even_ge_int)
    then have "(of_int (2 ^ 52) :: rat) \<le> of_int (round_half_even (x / pow2 q))"
      by (simp only: of_int_le_iff)
    then have "of_int (2 ^ 52) * pow2 q \<le> r"
      unfolding r_eq using pow2_pos [of q] by (simp only: mult_le_cancel_right_pos)
    moreover have "pow2 1 \<le> pow2 q" using q1 by (rule pow2_mono)
    then have "(of_int (2 ^ 52) :: rat) * 2 \<le> of_int (2 ^ 52) * pow2 q"
      by (simp add: pow2_def)
    ultimately have "(of_int (2 ^ 52) :: rat) * 2 \<le> r"
      by (rule order_trans [rotated])
    moreover have "(of_int n :: rat) < of_int (2 ^ 53)" using n(2) by (simp only: of_int_less_iff)
    ultimately show ?thesis by simp
  qed
qed


lemma round_to_double_overflow:
  assumes x: "pow2 1024 \<le> x"
  shows "round_to_double x = None"
proof -
  have x0: "0 < x" using x pow2_pos [of 1024] by linarith
  define q where "q = max (floor_log2 \<bar>x\<bar> - 52) (- 1074)"
  define r where "r = of_int (round_half_even (x / pow2 q)) * pow2 q"
  have "pow2 1024 \<le> r"
  proof (cases "q \<le> 1024")
    case True
    define k where "k = nat (1024 - q)"
    have "pow2 1024 = pow2 (int k) * pow2 q"
      using True pow2_add [of "int k" q] by (simp add: k_def)
    then have pk: "pow2 1024 = of_int (2 ^ k) * pow2 q" by (simp add: pow2_nat)
    then have "of_int (2 ^ k) \<le> x / pow2 q"
      using x pow2_pos [of q] by (simp add: pos_le_divide_eq)
    then have "2 ^ k \<le> round_half_even (x / pow2 q)"
      by (rule round_half_even_ge_int)
    then have "(of_int (2 ^ k) :: rat) \<le> of_int (round_half_even (x / pow2 q))"
      by (simp only: of_int_le_iff)
    then have "of_int (2 ^ k) * pow2 q \<le> r"
      unfolding r_def using pow2_pos [of q] by (simp only: mult_le_cancel_right_pos)
    then show ?thesis using pk by simp
  next
    case False
    then have qe: "q = floor_log2 x - 52" using x0 by (simp add: q_def max_def split: if_splits)
    have "pow2 (52 + q) \<le> x" using floor_log2_le [OF x0] qe by (simp add: algebra_simps)
    then have "pow2 52 * pow2 q \<le> x" by (simp add: pow2_add)
    then have "pow2 52 \<le> x / pow2 q" using pow2_pos [of q] by (simp add: pos_le_divide_eq)
    then have "of_int (2 ^ 52) \<le> x / pow2 q" by (simp add: pow2_def)
    then have "2 ^ 52 \<le> round_half_even (x / pow2 q)"
      by (rule round_half_even_ge_int)
    then have "(of_int (2 ^ 52) :: rat) \<le> of_int (round_half_even (x / pow2 q))"
      by (simp only: of_int_le_iff)
    then have "of_int (2 ^ 52) * pow2 q \<le> r"
      unfolding r_def using pow2_pos [of q] by (simp only: mult_le_cancel_right_pos)
    moreover have "pow2 1024 \<le> pow2 q" using False by (intro pow2_mono) simp
    moreover have "pow2 q \<le> of_int (2 ^ 52) * pow2 q" using pow2_pos [of q] by simp
    ultimately show ?thesis by linarith
  qed
  then have "\<not> \<bar>r\<bar> < pow2 1024" by linarith
  then show ?thesis
    using x0 by (simp add: round_to_double_def Let_def q_def r_def)
qed

subsection \<open>EngagementScorer\<close>

lemma engagement_steps:
  assumes v: "0 < v" and s0: "0 \<le> s" and s1: "s < 2 ^ 1000"
  shows "\<exists>q y r. round_to_double (of_int s / of_int v) = Some q \<and>
           round_to_double (q * 100) = Some y \<and>
           round_to_double (of_int (round_half_even (y * 10 ^ 4)) / 10 ^ 4) = Some r \<and>
           0 \<le> r \<and> (v \<le> s \<longrightarrow> 100 \<le> r)"
proof -
  define x :: rat where "x = of_int s / of_int v"
  have p: "pow2 1023 = 2 ^ 1023" by (simp add: pow2_def)
  have sr: "(of_int s :: rat) < 2 ^ 1000"
  proof -
    have "(of_int s :: rat) < of_int (2 ^ 1000)" using s1 by (simp only: of_int_less_iff)
    then show ?thesis by simp
  qed
  have v1: "(1::rat) \<le> of_int v" using v by simp
  have x0: "0 \<le> x" using v s0 by (simp add: x_def)
  have "x \<le> of_int s"
    unfolding x_def using v1 s0 by (simp add: pos_divide_le_eq mult_le_cancel_left1)
  then have x1: "x < 2 ^ 1000" using sr by linarith
  have "x < pow2 1023" using x1 by (simp add: p)
  from round_to_double_le_twice [OF x0 this]
  obtain q where q: "round_to_double x = Some q" "0 \<le> q" "q \<le> 2 * x" by blast
  have q0: "0 \<le> q * 100" using q(2) by simp
  have "q * 100 < pow2 1023" using q(3) x1 by (simp add: p)
  from round_to_double_le_twice [OF q0 this]
  obtain y where y: "round_to_double (q * 100) = Some y" "0 \<le> y" "y \<le> 2 * (q * 100)" by blast
  define z :: rat where "z = of_int (round_half_even (y * 10 ^ 4)) / 10 ^ 4"
  have t0: "0 \<le> y * 10 ^ 4" using y(2) by simp
  have z0: "0 \<le> z"
    unfolding z_def using round_half_even_nonneg [OF t0] by simp
  have "z \<le> 2 * y"
    unfolding z_def using round_half_even_le_twice [OF t0] by (simp add: field_simps)
  then have "z < pow2 1023" using y(3) q(3) x1 by (simp add: p)
  from round_to_double_le_twice [OF z0 this]
  obtain r where r: "round_to_double z = Some r" "0 \<le> r" by blast
  have big: "100 \<le> r" if vs: "v \<le> s"
  proof -
    have "(of_int v :: rat) \<le> of_int s" using vs by (simp only: of_int_le_iff)
    then have "of_int 1 \<le> x" unfolding x_def using v by (simp add: pos_le_divide_eq)
    from round_to_double_ge_int [OF _ _ this q(1)] have "1 \<le> q" by simp
    then have "of_int 100 \<le> q * 100" by simp
    from round_to_double_ge_int [OF _ _ this y(1)] have "100 \<le> y" by simp
    then have "of_int 1000000 \<le> y * 10 ^ 4" by simp
    then have "1000000 \<le> round_half_even (y * 10 ^ 4)" by (rule round_half_even_ge_int)
    then have "(of_int 1000000 :: rat) \<le> of_int (round_half_even (y * 10 ^ 4))"
      by (simp only: of_int_le_iff)
    then have "of_int 100 \<le> z" unfolding z_def by simp
    from round_to_double_ge_int [OF _ _ this r(1)] show ?thesis by simp
  qed
  show ?thesis
    using q(1) y(1) r big unfolding x_def z_def by blast
qed

lemma calculate_engagement_parsed:
  assumes "py_int (get_or (viewCount stats) (PyInt 0)) = Inr v"
    and "py_int (get_or (likeCount stats) (PyInt 0)) = Inr l"
    and "py_int (get_or (commentCount stats) (PyInt 0)) = Inr c"
  shows "calculate_engagement stats =
    (if v = 0 then Inr (Finite 0)
     else and_then (int_truediv (l + c) v) (\<lambda>ratio. py_round (times_100 ratio) 4))"
  using assms by (simp add: calculate_engagement_def)

lemma calculate_engagement_overflows:
  assumes "py_int (get_or (viewCount stats) (PyInt 0)) = Inr v"
    and "py_int (get_or (likeCount stats) (PyInt 0)) = Inr l"
    and "py_int (get_or (commentCount stats) (PyInt 0)) = Inr c"
    and v: "0 < v" and big: "2 ^ 1024 * v \<le> l + c"
  shows "calculate_engagement stats = Inl OverflowError"
proof -
  have p: "pow2 1024 = 2 ^ 1024" by (simp add: pow2_def)
  have "(of_int (2 ^ 1024 * v) :: rat) \<le> of_int (l + c)"
    using big by (simp only: of_int_le_iff)
  then have "(2 ^ 1024 :: rat) * of_int v \<le> of_int (l + c)" by simp
  then have "(2 ^ 1024 :: rat) \<le> of_int (l + c) / of_int v"
    using v by (simp add: pos_le_divide_eq)
  then have "pow2 1024 \<le> of_int (l + c) / of_int v" by (simp only: p)
  then have "round_to_double (of_int (l + c) / of_int v) = None"
    by (rule round_to_double_overflow)
  then show ?thesis
    using v unfolding calculate_engagement_parsed [OF assms(1-3)]
    by (simp add: int_truediv_def)
qed

text \<open>
  C6, amended. For all non-negative integer view, like and comment counts (an absent
  field counts as 0): when \<open>views = 0\<close> the scorer returns exactly \<open>0.0\<close>; when
  \<open>views > 0\<close> and \<open>likes + comments < 2 ^ 1000\<close> it returns
  \<open>round(((likes + comments) / views) * 100, 4)\<close> in double arithmetic, that is the
  correctly rounded quotient, its correctly rounded product with 100, and the nearest
  decimal with 4 places read back as a double; when \<open>views > 0\<close> and the quotient is
  \<open>2 ^ 1024\<close> or more it raises OverflowError. For views 200, likes 10 and comments 10
  the result is \<open>10.0\<close>.
\<close>

theorem calculate_engagement_formula:
  assumes "py_int (get_or (viewCount stats) (PyInt 0)) = Inr v"
    and "py_int (get_or (likeCount stats) (PyInt 0)) = Inr l"
    and "py_int (get_or (commentCount stats) (PyInt 0)) = Inr c"
    and "0 \<le> v" and "0 \<le> l" and "0 \<le> c"
  shows "(v = 0 \<longrightarrow> calculate_engagement stats = Inr (Finite 0)) \<and>
    (v \<noteq> 0 \<and> l + c < 2 ^ 1000 \<longrightarrow>
       (\<exists>q y r. round_to_double (of_int (l + c) / of_int v) = Some q \<and>
          round_to_double (q * 100) = Some y \<and>
          round_to_double (of_int (round_half_even (y * 10 ^ 4)) / 10 ^ 4) = Some r \<and>
          calculate_engagement stats = Inr (Finite r))) \<and>
    (v \<noteq> 0 \<and> 2 ^ 1024 * v \<le> l + c \<longrightarrow> calculate_engagement stats = Inl OverflowError)"
proof (intro conjI impI)
  assume "v = 0"
  then show "calculate_engagement stats = Inr (Finite 0)"
    using calculate_engagement_parsed [OF assms(1-3)] by simp
next
  assume a: "v \<noteq> 0 \<and> l + c < 2 ^ 1000"
  then have v: "0 < v" using assms(4) by simp
  have s: "0 \<le> l + c" using assms(5,6) by simp
  have b: "l + c < 2 ^ 1000" using a by simp
  from engagement_steps [OF v s b]
  obtain q y r where "round_to_double (of_int (l + c) / of_int v) = Some q"
    "round_to_double (q * 100) = Some y"
    "round_to_double (of_int (round_half_even (y * 10 ^ 4)) / 10 ^ 4) = Some r" by blast
  then show "\<exists>q y r. round_to_double (of_int (l + c) / of_int v) = Some q \<and>
          round_to_double (q * 100) = Some y \<and>
          round_to_double (of_int (round_half_even (y * 10 ^ 4)) / 10 ^ 4) = Some r \<and>
          calculate_engagement stats = Inr (Finite r)"
    using a calculate_engagement_parsed [OF assms(1-3)]
    by (simp add: int_truediv_def)
next
  assume a: "v \<noteq> 0 \<and> 2 ^ 1024 * v \<le> l + c"
  then have v: "0 < v" using assms(4) by simp
  have b: "2 ^ 1024 * v \<le> l + c" using a by simp
  show "calculate_engagement stats = Inl OverflowError"
    using assms(1-3) v b by (rule calculate_engagement_overflows)
qed

theorem calculate_engagement_formula_witness:
  "calculate_engagement stats_200_10_10 = Inr (Finite 10)"
proof -
  have v: "py_int (get_or (viewCount stats_200_10_10) (PyInt 0)) = Inr 200" by code_simp
  have l: "py_int (get_or (likeCount stats_200_10_10) (PyInt 0)) = Inr 10" by code_simp
  have c: "py_int (get_or (commentCount stats_200_10_10) (PyInt 0)) = Inr 10" by code_simp
  have q: "round_to_double (of_int (10 + 10) / of_int 200) = Some (3602879701896397 / 36028797018963968)"
    by code_simp
  have y: "round_to_double (3602879701896397 / 36028797018963968 * 100) = Some 10"
    by code_simp
  have r: "round_to_double (of_int (round_half_even (10 * 10 ^ 4)) / 10 ^ 4) = Some 10"
    by code_simp
  have h: "(0::int) \<le> 200" "(0::int) \<le> 10" "(200::int) \<noteq> 0 \<and> (10::int) + 10 < 2 ^ 1000"
    by simp_all
  from calculate_engagement_formula [OF v l c h(1) h(2) h(2)] h(3)
  obtain q' y' r' where a: "round_to_double (of_int (10 + 10) / of_int 200) = Some q'"
    and b: "round_to_double (q' * 100) = Some y'"
    and d: "round_to_double (of_int (round_half_even (y' * 10 ^ 4)) / 10 ^ 4) = Some r'"
    and e: "calculate_engagement stats_200_10_10 = Inr (Finite r')"
    by blast
  have "q' = 3602879701896397 / 36028797018963968" using a q by (simp only: option.inject)
  then have "y' = 10" using b y by (simp only: option.inject)
  then have "r' = 10" using d r by (simp only: option.inject)
  then show ?thesis using e by simp
qed

text \<open>
  C6, as stated, fails for counts beyond the range of a double: Python's integers are
  unbounded, and the division of \<open>2 ^ 1024\<close> likes by one view raises OverflowError.
\<close>

theorem engagement_overflow:
  "calculate_engagement stats_overflow = Inl OverflowError"
proof -
  have v: "py_int (get_or (viewCount stats_overflow) (PyInt 0)) = Inr 1" by code_simp
  have l: "py_int (get_or (likeCount stats_overflow) (PyInt 0)) = Inr (2 ^ 1024)"
    by (simp add: stats_overflow_def get_or_def)
  have c: "py_int (get_or (commentCount stats_overflow) (PyInt 0)) = Inr 0" by code_simp
  have "pow2 1024 = 2 ^ 1024" by (simp add: pow2_def)
  moreover have "(of_int (2 ^ 1024 + 0) / of_int 1 :: rat) = 2 ^ 1024" by simp
  ultimately have "pow2 1024 \<le> of_int (2 ^ 1024 + 0) / of_int 1" by (simp only: order_refl)
  then have "round_to_double (of_int (2 ^ 1024 + 0) / of_int 1) = None"
    by (rule round_to_double_overflow)
  then show ?thesis
    unfolding calculate_engagement_parsed [OF v l c] by (simp add: int_truediv_def)
qed

text \<open>
  C10, amended. For every statistics input with non-negative counts and
  \<open>likes + comments < 2 ^ 1000\<close>, \<open>calculate_engagement\<close> does not raise and returns a
  finite non-negative value. The value is not clamped to \<open>[0, 100]\<close>: whenever
  \<open>likes + comments \<ge> views > 0\<close> it is at least 100, and views 1, likes 2 give \<open>200.0\<close>.
  Whenever \<open>views > 0\<close> and the quotient is \<open>2 ^ 1024\<close> or more, it raises OverflowError.
\<close>

theorem calculate_engagement_range:
  assumes "py_int (get_or (viewCount stats) (PyInt 0)) = Inr v"
    and "py_int (get_or (likeCount stats) (PyInt 0)) = Inr l"
    and "py_int (get_or (commentCount stats) (PyInt 0)) = Inr c"
    and "0 \<le> v" and "0 \<le> l" and "0 \<le> c"
  shows "(l + c < 2 ^ 1000 \<longrightarrow>
      (\<exists>r. calculate_engagement stats = Inr (Finite r) \<and> 0 \<le> r \<and>
           (0 < v \<and> v \<le> l + c \<longrightarrow> 100 \<le> r))) \<and>
    (0 < v \<and> 2 ^ 1024 * v \<le> l + c \<longrightarrow> calculate_engagement stats = Inl OverflowError)"
proof (intro conjI impI)
  assume b: "l + c < 2 ^ 1000"
  show "\<exists>r. calculate_engagement stats = Inr (Finite r) \<and> 0 \<le> r \<and>
           (0 < v \<and> v \<le> l + c \<longrightarrow> 100 \<le> r)"
  proof (cases "v = 0")
    case True
    then show ?thesis using calculate_engagement_parsed [OF assms(1-3)] by simp
  next
    case False
    then have v: "0 < v" using assms(4) by simp
    have s: "0 \<le> l + c" using assms(5,6) by simp
    from engagement_steps [OF v s b]
    obtain q y r where "round_to_double (of_int (l + c) / of_int v) = Some q"
      "round_to_double (q * 100) = Some y"
      "round_to_double (of_int (round_half_even (y * 10 ^ 4)) / 10 ^ 4) = Some r"
      "0 \<le> r" "v \<le> l + c \<longrightarrow> 100 \<le> r" by blast
    then show ?thesis
      using False calculate_engagement_parsed [OF assms(1-3)]
      by (simp add: int_truediv_def)
  qed
next
  assume a: "0 < v \<and> 2 ^ 1024 * v \<le> l + c"
  then have v: "0 < v" and b: "2 ^ 1024 * v \<le> l + c" by simp_all
  show "calculate_engagement stats = Inl OverflowError"
    using assms(1-3) v b by (rule calculate_engagement_overflows)
qed

theorem calculate_engagement_range_witness:
  "calculate_engagement stats_1_2 = Inr (Finite 200) \<and>
   (\<exists>r. calculate_engagement stats_1_2 = Inr (Finite r) \<and> 0 \<le> r \<and> 100 \<le> r)"
proof -
  have v: "py_int (get_or (viewCount stats_1_2) (PyInt 0)) = Inr 1" by code_simp
  have l: "py_int (get_or (likeCount stats_1_2) (PyInt 0)) = Inr 2" by code_simp
  have c: "py_int (get_or (commentCount stats_1_2) (PyInt 0)) = Inr 0" by code_simp
  have h: "(0::int) \<le> 1" "(0::int) \<le> 2" "(0::int) \<le> 0" "(2::int) + 0 < 2 ^ 1000"
    "(0::int) < 1 \<and> (1::int) \<le> 2 + 0"
    by simp_all
  from calculate_engagement_range [OF v l c h(1) h(2) h(3)] h(4) h(5)
  have "\<exists>r. calculate_engagement stats_1_2 = Inr (Finite r) \<and> 0 \<le> r \<and> 100 \<le> r"
    by blast
  moreover have "calculate_engagement stats_1_2 = Inr (Finite 200)"
  proof -
    have q: "round_to_double 2 = Some 2" by code_simp
    have y: "round_to_double 200 = Some 200" by code_simp
    have e: "round_half_even 2000000 = 2000000" by code_simp
    show ?thesis
      unfolding calculate_engagement_parsed [OF v l c]
      by (simp add: int_truediv_def q y e)
  qed
  ultimately show ?thesis by blast
qed

text \<open>
  C10, as stated, fails twice. More likes and comments than views need not give more
  than 100: for 2097152 views and 2097153 likes the rate before rounding is
  100.0000476..., and the rounding to 4 places returns exactly \<open>100.0\<close>. And the
  division does raise, OverflowError, when the quotient is beyond the largest double.
\<close>

theorem engagement_exactly_100:
  "calculate_engagement stats_just_above = Inr (Finite 100) \<and>
   calculate_engagement stats_overflow_comments = Inl OverflowError"
proof
  have v: "py_int (get_or (viewCount stats_just_above) (PyInt 0)) = Inr 2097152"
    by (simp add: stats_just_above_def get_or_def)
  have l: "py_int (get_or (likeCount stats_just_above) (PyInt 0)) = Inr 2097153"
    by (simp add: stats_just_above_def get_or_def)
  have c: "py_int (get_or (commentCount stats_just_above) (PyInt 0)) = Inr 0"
    by (simp add: stats_just_above_def get_or_def)
  have q: "round_to_double (2097153 / 2097152) = Some (2097153 / 2097152)" by code_simp
  have y: "round_to_double (52428825 / 524288) = Some (52428825 / 524288)" by code_simp
  have e: "round_half_even (32768015625 / 32768) = 1000000" by code_simp
  have r: "round_to_double 100 = Some 100" by code_simp
  show "calculate_engagement stats_just_above = Inr (Finite 100)"
    unfolding calculate_engagement_parsed [OF v l c]
    by (simp add: int_truediv_def q y e r)
next
  have v: "py_int (get_or (viewCount stats_overflow_comments) (PyInt 0)) = Inr 1" by code_simp
  have l: "py_int (get_or (likeCount stats_overflow_comments) (PyInt 0)) = Inr 0" by code_simp
  have c: "py_int (get_or (commentCount stats_overflow_comments) (PyInt 0)) = Inr (2 ^ 1024)"
    by (simp add: stats_overflow_comments_def get_or_def)
  have "pow2 1024 = 2 ^ 1024" by (simp add: pow2_def)
  moreover have "(of_int (0 + 2 ^ 1024) / of_int 1 :: rat) = 2 ^ 1024" by simp
  ultimately have "pow2 1024 \<le> of_int (0 + 2 ^ 1024) / of_int 1" by (simp only: order_refl)
  then have "round_to_double (of_int (0 + 2 ^ 1024) / of_int 1) = None"
    by (rule round_to_double_overflow)
  then show "calculate_engagement stats_overflow_comments = Inl OverflowError"
    unfolding calculate_engagement_parsed [OF v l c] by (simp add: int_truediv_def)
qed

subsection \<open>DimensionMerger\<close>

lemma first_max_in: "first_max b xs \<in> set (b # xs)"
  by (induction xs arbitrary: b) (auto split: if_splits)

lemma row_number_1_id:
  assumes "row_number_1 rows k = Some r"
  shows "channel_id r = k"
proof -
  obtain x xs where f: "filter (\<lambda>r. channel_id (snd r) = k) rows = x # xs"
    and r: "r = snd (first_max x xs)"
    using assms by (auto simp: row_number_1_def split: list.splits)
  have "first_max x xs \<in> set (filter (\<lambda>r. channel_id (snd r) = k) rows)"
    using first_max_in [of x xs] f by simp
  then show ?thesis using r by simp
qed

lemma row_number_1_Some:
  assumes "k \<in> set (map (\<lambda>r. channel_id (snd r)) rows)"
  shows "\<exists>r. row_number_1 rows k = Some r"
proof -
  have "filter (\<lambda>r. channel_id (snd r) = k) rows \<noteq> []"
    using assms by (auto simp: filter_empty_conv)
  then show ?thesis by (auto simp: row_number_1_def split: list.splits)
qed

lemma map_filter_keys:
  assumes "\<forall>k \<in> set ks. \<exists>r. g k = Some r \<and> f r = k"
  shows "map f (List.map_filter g ks) = ks"
  using assms by (induction ks) (auto simp: List.map_filter_simps)

lemma select_temp_channels_ids:
  "map channel_id (select_temp_channels files) =
     remdups (map (\<lambda>r. channel_id (snd r)) (flatten_channels files))"
  unfolding select_temp_channels_def Let_def
proof (rule map_filter_keys, rule ballI)
  fix k
  assume "k \<in> set (remdups (map (\<lambda>r. channel_id (snd r)) (flatten_channels files)))"
  then have "k \<in> set (map (\<lambda>r. channel_id (snd r)) (flatten_channels files))" by simp
  from row_number_1_Some [OF this]
  obtain r where r: "row_number_1 (flatten_channels files) k = Some r" ..
  with row_number_1_id [OF r]
  show "\<exists>r. row_number_1 (flatten_channels files) k = Some r \<and> channel_id r = k" by simp
qed

lemma select_temp_channels_distinct: "distinct (map channel_id (select_temp_channels files))"
  by (simp add: select_temp_channels_ids)

lemma find_distinct_key:
  assumes "distinct (map f xs)" and "s \<in> set xs"
  shows "find (\<lambda>x. f x = f s) xs = Some s"
  using assms by (induction xs) (auto simp: rev_image_eqI)

lemma find_no_key:
  assumes "k \<notin> f ` set xs"
  shows "find (\<lambda>x. f x = k) xs = None"
  using assms by (auto simp: find_None_iff)

text \<open>
  C9. A run of the DimensionMerger keeps every row that was in the dimension table at
  its place. A row whose channel identifier is in the channels input gets the title,
  country, subscriber count and video count of the snapshot and \<open>last_updated\<close> set to
  the current timestamp; its channel identifier and its \<open>first_seen_date\<close> are unchanged.
  A row whose identifier is not in the input is unchanged. The rows added are one per
  snapshot whose identifier was not in the table, with \<open>first_seen_date\<close> the current
  date. There is one snapshot for each channel identifier of the input.
\<close>

theorem DimensionMerger_upsert:
  "(\<forall>i < length tgt. \<forall>s \<in> set (select_temp_channels files).
       channel_id s = channel_id (tgt ! i) \<longrightarrow>
         DimensionMerger now dflt files tgt ! i =
           (tgt ! i) \<lparr> channel_title := channel_title s, channel_country := channel_country s,
              subscriber_count := subscriber_count s, video_count := video_count s,
              last_updated := Some (CURRENT_TIMESTAMP now) \<rparr>) \<and>
   (\<forall>i < length tgt.
       channel_id (tgt ! i) \<notin> channel_id ` set (select_temp_channels files) \<longrightarrow>
         DimensionMerger now dflt files tgt ! i = tgt ! i) \<and>
   (\<forall>i < length tgt.
       channel_id (DimensionMerger now dflt files tgt ! i) = channel_id (tgt ! i) \<and>
       first_seen_date (DimensionMerger now dflt files tgt ! i) = first_seen_date (tgt ! i)) \<and>
   drop (length tgt) (DimensionMerger now dflt files tgt) =
     map (\<lambda>s. \<lparr> channel_id = channel_id s, channel_title = channel_title s,
                 channel_country = channel_country s,
                 subscriber_count = subscriber_count s, video_count = video_count s,
                 first_seen_date = Some (CURRENT_DATE now), last_updated = dflt \<rparr>)
       (filter (\<lambda>s. channel_id s \<notin> channel_id ` set tgt) (select_temp_channels files)) \<and>
   distinct (map channel_id (select_temp_channels files)) \<and>
   channel_id ` set (select_temp_channels files) =
     (\<lambda>r. channel_id (snd r)) ` set (flatten_channels files)"
proof (intro conjI allI impI ballI)
  fix i s
  assume i: "i < length tgt" and s: "s \<in> set (select_temp_channels files)"
    and k: "channel_id s = channel_id (tgt ! i)"
  have "find (\<lambda>x. channel_id x = channel_id s) (select_temp_channels files) = Some s"
    using select_temp_channels_distinct s by (rule find_distinct_key)
  then show "DimensionMerger now dflt files tgt ! i =
      (tgt ! i) \<lparr> channel_title := channel_title s, channel_country := channel_country s,
         subscriber_count := subscriber_count s, video_count := video_count s,
         last_updated := Some (CURRENT_TIMESTAMP now) \<rparr>"
    using i k by (simp add: DimensionMerger_def merge_dim_channels_def nth_append)
next
  fix i
  assume i: "i < length tgt"
    and k: "channel_id (tgt ! i) \<notin> channel_id ` set (select_temp_channels files)"
  from find_no_key [OF k]
  show "DimensionMerger now dflt files tgt ! i = tgt ! i"
    using i by (simp add: DimensionMerger_def merge_dim_channels_def nth_append)
next
  fix i
  assume i: "i < length tgt"
  then show "channel_id (DimensionMerger now dflt files tgt ! i) = channel_id (tgt ! i)"
    by (simp add: DimensionMerger_def merge_dim_channels_def nth_append split: option.splits)
next
  fix i
  assume i: "i < length tgt"
  then show "first_seen_date (DimensionMerger now dflt files tgt ! i) = first_seen_date (tgt ! i)"
    by (simp add: DimensionMerger_def merge_dim_channels_def nth_append split: option.splits)
next
  show "drop (length tgt) (DimensionMerger now dflt files tgt) =
     map (\<lambda>s. \<lparr> channel_id = channel_id s, channel_title = channel_title s,
                 channel_country = channel_country s,
                 subscriber_count = subscriber_count s, video_count = video_count s,
                 first_seen_date = Some (CURRENT_DATE now), last_updated = dflt \<rparr>)
       (filter (\<lambda>s. channel_id s \<notin> channel_id ` set tgt) (select_temp_channels files))"
    by (simp add: DimensionMerger_def merge_dim_channels_def)
next
  show "distinct (map channel_id (select_temp_channels files))"
    by (rule select_temp_channels_distinct)
next
  have "set (map channel_id (select_temp_channels files)) =
      set (map (\<lambda>r. channel_id (snd r)) (flatten_channels files))"
    by (simp only: select_temp_channels_ids set_remdups)
  then show "channel_id ` set (select_temp_channels files) =
     (\<lambda>r. channel_id (snd r)) ` set (flatten_channels files)"
    by simp
qed

theorem DimensionMerger_upsert_witness:
  "DimensionMerger example_clock None example_channels_files example_dim ! 0 =
     (example_dim ! 0) \<lparr> channel_title := ''Alpha 2'', channel_country := ''US'',
        subscriber_count := 12, video_count := 3,
        last_updated := Some ''2024-05-02 06:00:00'' \<rparr> \<and>
   DimensionMerger example_clock None example_channels_files example_dim ! 1 = example_dim ! 1 \<and>
   first_seen_date (DimensionMerger example_clock None example_channels_files example_dim ! 0) =
     Some ''2024-01-01''"
proof -
  have l: "0 < length example_dim" "1 < length example_dim"
    by (simp_all add: example_dim_def)
  have s: "channel_a_newer \<in> set (select_temp_channels example_channels_files)"
    by code_simp
  have k: "channel_id channel_a_newer = channel_id (example_dim ! 0)"
    by code_simp
  have n: "channel_id (example_dim ! 1) \<notin> channel_id ` set (select_temp_channels example_channels_files)"
    by code_simp
  have f: "first_seen_date (example_dim ! 0) = Some ''2024-01-01''"
    by (simp add: example_dim_def)
  have v: "channel_title channel_a_newer = ''Alpha 2''" "channel_country channel_a_newer = ''US''"
    "subscriber_count channel_a_newer = 12" "video_count channel_a_newer = 3"
    "CURRENT_TIMESTAMP example_clock = ''2024-05-02 06:00:00''"
    by (simp_all add: channel_a_newer_def channel_a_def example_clock_def)
  note t = DimensionMerger_upsert [of example_dim example_channels_files example_clock None]
  from t l(1) s k have "DimensionMerger example_clock None example_channels_files example_dim ! 0 =
     (example_dim ! 0) \<lparr> channel_title := channel_title channel_a_newer,
        channel_country := channel_country channel_a_newer,
        subscriber_count := subscriber_count channel_a_newer,
        video_count := video_count channel_a_newer,
        last_updated := Some (CURRENT_TIMESTAMP example_clock) \<rparr>"
    by blast
  moreover from t l(2) n
  have "DimensionMerger example_clock None example_channels_files example_dim ! 1 = example_dim ! 1"
    by blast
  moreover from t l(1) f
  have "first_seen_date (DimensionMerger example_clock None example_channels_files example_dim ! 0) =
     Some ''2024-01-01''"
    by simp
  ultimately show ?thesis by (simp only: v)
qed

lemma merge_dim_channels_ids:
  "map channel_id (merge_dim_channels now dflt src tgt) =
     map channel_id tgt @
     map channel_id (filter (\<lambda>s. channel_id s \<notin> set (map channel_id tgt)) src)"
proof -
  have "channel_id (case find (\<lambda>s. channel_id s = channel_id t) src of
            None \<Rightarrow> t
          | Some s \<Rightarrow> t \<lparr> channel_title := channel_title s,
                          channel_country := channel_country s,
                          subscriber_count := subscriber_count s,
                          video_count := video_count s,
                          last_updated := Some (CURRENT_TIMESTAMP now) \<rparr>) = channel_id t"
    for t :: dim_channels
    by (cases "find (\<lambda>s. channel_id s = channel_id t) src") simp_all
  then show ?thesis
    unfolding merge_dim_channels_def by (simp add: comp_def)
qed

lemma merge_dim_channels_covers:
  "set (map channel_id src) \<subseteq> set (map channel_id (merge_dim_channels now dflt src tgt))"
proof
  fix k
  assume "k \<in> set (map channel_id src)"
  then obtain s where s: "s \<in> set src" "k = channel_id s" by auto
  show "k \<in> set (map channel_id (merge_dim_channels now dflt src tgt))"
  proof (cases "k \<in> set (map channel_id tgt)")
    case True
    then show ?thesis unfolding merge_dim_channels_ids by simp
  next
    case False
    with s have "s \<in> set (filter (\<lambda>s. channel_id s \<notin> set (map channel_id tgt)) src)"
      by simp
    then have "k \<in> set (map channel_id
        (filter (\<lambda>s. channel_id s \<notin> set (map channel_id tgt)) src))"
      using s(2) by (simp only: set_map image_eqI)
    then show ?thesis unfolding merge_dim_channels_ids by simp
  qed
qed

lemma merge_dim_channels_row_again:
  assumes d: "distinct (map channel_id src)"
    and r: "r \<in> set (merge_dim_channels now1 dflt1 src tgt)"
  shows "(case find (\<lambda>s. channel_id s = channel_id r) src of
            None \<Rightarrow> r
          | Some s \<Rightarrow> r \<lparr> channel_title := channel_title s,
                          channel_country := channel_country s,
                          subscriber_count := subscriber_count s,
                          video_count := video_count s,
                          last_updated := Some (CURRENT_TIMESTAMP now2) \<rparr>)
           \<lparr> last_updated := None \<rparr> = r \<lparr> last_updated := None \<rparr>"
proof -
  from r have "r \<in> set (map (\<lambda>t. case find (\<lambda>s. channel_id s = channel_id t) src of
                None \<Rightarrow> t
              | Some s \<Rightarrow> t \<lparr> channel_title := channel_title s,
                              channel_country := channel_country s,
                              subscriber_count := subscriber_count s,
                              video_count := video_count s,
                              last_updated := Some (CURRENT_TIMESTAMP now1) \<rparr>) tgt) \<or>
     r \<in> set (map (\<lambda>s. \<lparr> channel_id = channel_id s, channel_title = channel_title s,
                   channel_country = channel_country s,
                   subscriber_count = subscriber_count s, video_count = video_count s,
                   first_seen_date = Some (CURRENT_DATE now1), last_updated = dflt1 \<rparr>)
         (filter (\<lambda>s. channel_id s \<notin> set (map channel_id tgt)) src))"
    unfolding merge_dim_channels_def by (simp only: set_append Un_iff)
  then show ?thesis
  proof
    assume "r \<in> set (map (\<lambda>t. case find (\<lambda>s. channel_id s = channel_id t) src of
                None \<Rightarrow> t
              | Some s \<Rightarrow> t \<lparr> channel_title := channel_title s,
                              channel_country := channel_country s,
                              subscriber_count := subscriber_count s,
                              video_count := video_count s,
                              last_updated := Some (CURRENT_TIMESTAMP now1) \<rparr>) tgt)"
    then obtain t where t: "r = (case find (\<lambda>s. channel_id s = channel_id t) src of
                None \<Rightarrow> t
              | Some s \<Rightarrow> t \<lparr> channel_title := channel_title s,
                              channel_country := channel_country s,
                              subscriber_count := subscriber_count s,
                              video_count := video_count s,
                              last_updated := Some (CURRENT_TIMESTAMP now1) \<rparr>)"
      by (auto simp only: set_map image_iff)
    show ?thesis
    proof (cases "find (\<lambda>s. channel_id s = channel_id t) src")
      case None
      then show ?thesis unfolding t by simp
    next
      case (Some s)
      then show ?thesis unfolding t by simp
    qed
  next
    assume "r \<in> set (map (\<lambda>s. \<lparr> channel_id = channel_id s, channel_title = channel_title s,
                   channel_country = channel_country s,
                   subscriber_count = subscriber_count s, video_count = video_count s,
                   first_seen_date = Some (CURRENT_DATE now1), last_updated = dflt1 \<rparr>)
         (filter (\<lambda>s. channel_id s \<notin> set (map channel_id tgt)) src))"
    then obtain s where s: "s \<in> set src" and n: "r = \<lparr> channel_id = channel_id s,
                   channel_title = channel_title s, channel_country = channel_country s,
                   subscriber_count = subscriber_count s, video_count = video_count s,
                   first_seen_date = Some (CURRENT_DATE now1), last_updated = dflt1 \<rparr>"
      by (auto simp only: set_map image_iff set_filter mem_Collect_eq)
    have "find (\<lambda>x. channel_id x = channel_id s) src = Some s"
      using d s by (rule find_distinct_key)
    then show ?thesis unfolding n by simp
  qed
qed

lemma merge_dim_channels_again:
  assumes d: "distinct (map channel_id src)"
  shows "map (\<lambda>r. r \<lparr> last_updated := None \<rparr>)
           (merge_dim_channels now2 dflt2 src (merge_dim_channels now1 dflt1 src tgt)) =
         map (\<lambda>r. r \<lparr> last_updated := None \<rparr>) (merge_dim_channels now1 dflt1 src tgt)"
proof -
  define out where "out = merge_dim_channels now1 dflt1 src tgt"
  have "set (map channel_id src) \<subseteq> set (map channel_id out)"
    unfolding out_def by (rule merge_dim_channels_covers)
  then have "\<forall>s \<in> set src. channel_id s \<in> set (map channel_id out)"
    by auto
  then have none: "filter (\<lambda>s. channel_id s \<notin> set (map channel_id out)) src = []"
    by (simp only: filter_empty_conv not_not)
  have row: "(case find (\<lambda>s. channel_id s = channel_id r) src of
            None \<Rightarrow> r
          | Some s \<Rightarrow> r \<lparr> channel_title := channel_title s,
                          channel_country := channel_country s,
                          subscriber_count := subscriber_count s,
                          video_count := video_count s,
                          last_updated := Some (CURRENT_TIMESTAMP now2) \<rparr>)
           \<lparr> last_updated := None \<rparr> = r \<lparr> last_updated := None \<rparr>"
    if "r \<in> set out" for r
    using d that unfolding out_def by (rule merge_dim_channels_row_again)
  have "map (\<lambda>r. r \<lparr> last_updated := None \<rparr>) (merge_dim_channels now2 dflt2 src out) =
      map (\<lambda>r. (case find (\<lambda>s. channel_id s = channel_id r) src of
            None \<Rightarrow> r
          | Some s \<Rightarrow> r \<lparr> channel_title := channel_title s,
                          channel_country := channel_country s,
                          subscriber_count := subscriber_count s,
                          video_count := video_count s,
                          last_updated := Some (CURRENT_TIMESTAMP now2) \<rparr>)
           \<lparr> last_updated := None \<rparr>) out"
    unfolding merge_dim_channels_def [of now2 dflt2 src out] none
    by (simp only: list.map append_Nil2 map_map comp_def)
  also have "\<dots> = map (\<lambda>r. r \<lparr> last_updated := None \<rparr>) out"
    using row by (rule map_cong [OF refl])
  finally show ?thesis unfolding out_def .
qed

text \<open>
  C5, as stated, fails: the second run sets \<open>last_updated\<close> of every channel of the input
  to its own current timestamp, so the table after two runs differs from the table
  after one in that column.
\<close>

theorem DimensionMerger_twice_differs:
  "DimensionMerger later_clock (Some (CURRENT_TIMESTAMP later_clock)) example_channels_files
     (DimensionMerger example_clock (Some (CURRENT_TIMESTAMP example_clock))
        example_channels_files example_dim) \<noteq>
   DimensionMerger example_clock (Some (CURRENT_TIMESTAMP example_clock))
     example_channels_files example_dim"
  by code_simp

text \<open>
  C5, amended. The DimensionMerger is idempotent on every column but \<open>last_updated\<close>:
  for every dimension table, every channels input and any two readings of the clock,
  a second run with the same input leaves the same rows in the same order, equal in
  channel identifier, title, country, subscriber count, video count and
  \<open>first_seen_date\<close>. \<open>last_updated\<close> holds the timestamp of the latest run.
\<close>

theorem DimensionMerger_idempotent:
  "map (\<lambda>r. r \<lparr> last_updated := None \<rparr>)
     (DimensionMerger now2 dflt2 files (DimensionMerger now1 dflt1 files tgt)) =
   map (\<lambda>r. r \<lparr> last_updated := None \<rparr>) (DimensionMerger now1 dflt1 files tgt)"
  unfolding DimensionMerger_def
  using select_temp_channels_distinct by (rule merge_dim_channels_again)

theorem DimensionMerger_idempotent_witness:
  "map (\<lambda>r. r \<lparr> last_updated := None \<rparr>)
     (DimensionMerger later_clock None example_channels_files
        (DimensionMerger example_clock None example_channels_files example_dim)) =
   [\<lparr> channel_id = ''UCa'', channel_title = ''Alpha 2'', channel_country = ''US'',
      subscriber_count = 12, video_count = 3, first_seen_date = Some ''2024-01-01'',
      last_updated = None \<rparr>,
    \<lparr> channel_id = ''UCz'', channel_title = ''Zeta'', channel_country = ''CA'',
      subscriber_count = 5, video_count = 2, first_seen_date = Some ''2024-02-01'',
      last_updated = None \<rparr>,
    \<lparr> channel_id = ''UCb'', channel_title = ''Beta'', channel_country = ''UNKNOWN'',
      subscriber_count = 0, video_count = 1, first_seen_date = Some ''2024-05-02'',
      last_updated = None \<rparr>]"
proof -
  have "map (\<lambda>r. r \<lparr> last_updated := None \<rparr>)
     (DimensionMerger example_clock None example_channels_files example_dim) =
   [\<lparr> channel_id = ''UCa'', channel_title = ''Alpha 2'', channel_country = ''US'',
      subscriber_count = 12, video_count = 3, first_seen_date = Some ''2024-01-01'',
      last_updated = None \<rparr>,
    \<lparr> channel_id = ''UCz'', channel_title = ''Zeta'', channel_country = ''CA'',
      subscriber_count = 5, video_count = 2, first_seen_date = Some ''2024-02-01'',
      last_updated = None \<rparr>,
    \<lparr> channel_id = ''UCb'', channel_title = ''Beta'', channel_country = ''UNKNOWN'',
      subscriber_count = 0, video_count = 1, first_seen_date = Some ''2024-05-02'',
      last_updated = None \<rparr>]"
    by code_simp
  with DimensionMerger_idempotent [of later_clock None example_channels_files example_clock None
      example_dim]
  show ?thesis by (simp only:)
qed

subsection \<open>FactMerger\<close>

text \<open>
  What the merge of \<open>_load_video_facts\<close> does keep: the rows of the fact table stay as
  they are, and no inserted row has the video identifier of a row that was there.
\<close>

lemma FactMerger_keeps_rows: "take (length tgt) (FactMerger stg tgt) = tgt"
  by (simp add: FactMerger_def merge_fact_videos_def)

lemma FactMerger_inserts_absent:
  "r \<in> set (drop (length tgt) (FactMerger stg tgt)) \<Longrightarrow> video_id r \<notin> video_id ` set tgt"
  by (simp add: FactMerger_def merge_fact_videos_def)

text \<open>
  When the fact table has one row per video identifier and the distinct rows of the
  staging table have one row per video identifier, so has the fact table after the
  merge.
\<close>

lemma FactMerger_distinct:
  assumes "distinct (map video_id tgt)"
    and "distinct (map video_id (remdups (select_videos stg)))"
  shows "distinct (map video_id (FactMerger stg tgt))"
proof -
  have "distinct (map video_id (filter (\<lambda>s. video_id s \<notin> set (map video_id tgt))
      (remdups (select_videos stg))))"
    using assms(2) by (rule distinct_map_filter)
  moreover have "set (map video_id tgt) \<inter>
      set (map video_id (filter (\<lambda>s. video_id s \<notin> set (map video_id tgt))
        (remdups (select_videos stg)))) = {}"
    by (auto simp: image_iff dest: sym)
  ultimately show ?thesis
    using assms(1) unfolding FactMerger_def merge_fact_videos_def
    by (simp only: map_append distinct_append simp_thms)
qed

text \<open>
  C3 does not hold of the code. The staging table holds one video twice, found under
  the search keywords \<open>technology\<close> and \<open>AI\<close>; the fact table is empty. \<open>SELECT DISTINCT\<close>
  keeps both rows, since they differ in \<open>search_keyword\<close>, neither matches a row of the
  target, and the merge of \<open>_load_video_facts\<close> inserts both: two fact rows with the
  video identifier \<open>v1\<close>. The \<open>INSERT\<close> of \<open>load_video_facts\<close> in \<open>snowflake_loader.py\<close>
  inserts every staging row, whether its identifier is in the fact table or not.
\<close>

theorem FactMerger_duplicate_video_id:
  "map video_id (FactMerger example_staging []) = [''v1'', ''v1''] \<and>
   map search_keyword (FactMerger example_staging []) = [''technology'', ''AI''] \<and>
   map video_id (insert_fact_videos example_staging (FactMerger example_staging [])) =
     [''v1'', ''v1'', ''v1'', ''v1'']"
  by code_simp

subsection \<open>LoadOrchestrator\<close>

lemma succeeds_STAGING:
  "succeeds e STAGING \<longleftrightarrow> \<not> raises e (Execute STAGING 0) \<and> \<not> raises e (Execute STAGING 1) \<and>
     \<not> raises e (Execute STAGING 2) \<and> \<not> raises e (Commit STAGING)"
  by (simp add: succeeds_def upt_conv_Cons eval_nat_numeral)

lemma succeeds_CHANNELS:
  "succeeds e CHANNELS \<longleftrightarrow> \<not> raises e (Execute CHANNELS 0) \<and> \<not> raises e (Execute CHANNELS 1) \<and>
     \<not> raises e (Commit CHANNELS)"
  by (simp add: succeeds_def upt_conv_Cons eval_nat_numeral)

lemma succeeds_FACTS:
  "succeeds e FACTS \<longleftrightarrow> \<not> raises e (Execute FACTS 0) \<and> \<not> raises e (Commit FACTS)"
  by (simp add: succeeds_def upt_conv_Cons eval_nat_numeral)

lemma succeeds_AGGREGATIONS:
  "succeeds e AGGREGATIONS \<longleftrightarrow> \<not> raises e (Execute AGGREGATIONS 0) \<and>
     \<not> raises e (Execute AGGREGATIONS 1) \<and> \<not> raises e (Execute AGGREGATIONS 2) \<and>
     \<not> raises e (Execute AGGREGATIONS 3) \<and> \<not> raises e (Commit AGGREGATIONS)"
  by (simp add: succeeds_def upt_conv_Cons eval_nat_numeral)

lemma succeeds_CLEANUP:
  "succeeds e CLEANUP \<longleftrightarrow> \<not> raises e (Execute CLEANUP 0) \<and> \<not> raises e (Commit CLEANUP)"
  by (simp add: succeeds_def upt_conv_Cons eval_nat_numeral)

lemmas statement_defs = execute_def commit_def rollback_def invoked_def and_next_def
  create_if_not_exists_def create_temp_videos_def insert_stg_videos_def
  create_temp_channels_def merge_into_dim_channels_def merge_into_fact_videos_def
  delete_aggregations_def insert_aggregations_def truncate_stg_videos_def Let_def

lemma staging_succeeds:
  assumes "succeeds e STAGING" and "session c = committed c"
  shows "\<exists>c'. guarded e STAGING (service_load_videos_to_staging e) c = (Inr True, c') \<and>
     session c' = committed c' \<and> events c' = events c @ [Invoked STAGING, Committed] \<and>
     DIM_CHANNELS (committed c') = DIM_CHANNELS (committed c) \<and>
     FACT_VIDEOS (committed c') = FACT_VIDEOS (committed c) \<and>
     AGG_DAILY_BY_REGION (committed c') = AGG_DAILY_BY_REGION (committed c)"
  using assms
  by (simp add: succeeds_STAGING guarded_def service_load_videos_to_staging_def statement_defs)

lemma channels_succeeds:
  assumes "succeeds e CHANNELS" and "session c = committed c"
  shows "\<exists>c'. guarded e CHANNELS (service_load_channels e) c = (Inr True, c') \<and>
     session c' = committed c' \<and> events c' = events c @ [Invoked CHANNELS, Committed] \<and>
     DIM_CHANNELS (committed c') =
       DimensionMerger (clock_of e CHANNELS) (last_updated_default e) (channels_files e)
         (DIM_CHANNELS (committed c)) \<and>
     STG_VIDEOS (committed c') = STG_VIDEOS (committed c) \<and>
     FACT_VIDEOS (committed c') = FACT_VIDEOS (committed c) \<and>
     AGG_DAILY_BY_REGION (committed c') = AGG_DAILY_BY_REGION (committed c)"
  using assms
  by (simp add: succeeds_CHANNELS guarded_def service_load_channels_def statement_defs
      DimensionMerger_def)

lemma facts_succeeds:
  assumes "succeeds e FACTS" and "session c = committed c"
  shows "\<exists>c'. guarded e FACTS (service_load_video_facts e) c = (Inr True, c') \<and>
     session c' = committed c' \<and> events c' = events c @ [Invoked FACTS, Committed] \<and>
     FACT_VIDEOS (committed c') =
       FactMerger (STG_VIDEOS (committed c)) (FACT_VIDEOS (committed c)) \<and>
     STG_VIDEOS (committed c') = STG_VIDEOS (committed c) \<and>
     DIM_CHANNELS (committed c') = DIM_CHANNELS (committed c) \<and>
     AGG_DAILY_BY_REGION (committed c') = AGG_DAILY_BY_REGION (committed c)"
  using assms
  by (simp add: succeeds_FACTS guarded_def service_load_video_facts_def statement_defs)

lemma facts_fails:
  assumes "raises e (Execute FACTS 0) \<or> (raises e (Commit FACTS) \<and> \<not> autocommit e)"
    and "\<not> raises e (Rollback FACTS)" and "session c = committed c"
  shows "\<exists>c'. guarded e FACTS (service_load_video_facts e) c = (Inr False, c') \<and>
     session c' = committed c' \<and> committed c' = committed c \<and>
     events c' = events c @ [Invoked FACTS, RolledBack]"
  using assms
  by (auto simp: guarded_def service_load_video_facts_def statement_defs)

lemma aggregations_any:
  assumes "\<not> raises e (Rollback AGGREGATIONS)" and "session c = committed c"
  shows "\<exists>c'. guarded e AGGREGATIONS (service_refresh_aggregations e) c =
       (Inr (succeeds e AGGREGATIONS), c') \<and>
     session c' = committed c' \<and>
     events c' = events c @
       [Invoked AGGREGATIONS, if succeeds e AGGREGATIONS then Committed else RolledBack] \<and>
     STG_VIDEOS (committed c') = STG_VIDEOS (committed c) \<and>
     DIM_CHANNELS (committed c') = DIM_CHANNELS (committed c) \<and>
     FACT_VIDEOS (committed c') = FACT_VIDEOS (committed c) \<and>
     (\<not> succeeds e AGGREGATIONS \<and> \<not> autocommit e \<longrightarrow> committed c' = committed c)"
  using assms
  by (simp add: succeeds_AGGREGATIONS guarded_def service_refresh_aggregations_def
      statement_defs)

lemma cleanup_any:
  assumes "\<not> raises e (Rollback CLEANUP)" and "session c = committed c"
  shows "\<exists>c'. guarded e CLEANUP (service_cleanup_staging e) c =
       (Inr (succeeds e CLEANUP), c') \<and>
     session c' = committed c' \<and>
     events c' = events c @
       [Invoked CLEANUP, if succeeds e CLEANUP then Committed else RolledBack] \<and>
     DIM_CHANNELS (committed c') = DIM_CHANNELS (committed c) \<and>
     FACT_VIDEOS (committed c') = FACT_VIDEOS (committed c) \<and>
     AGG_DAILY_BY_REGION (committed c') = AGG_DAILY_BY_REGION (committed c) \<and>
     (\<not> succeeds e CLEANUP \<and> \<not> autocommit e \<longrightarrow> committed c' = committed c)"
  using assms
  by (simp add: succeeds_CLEANUP guarded_def service_cleanup_staging_def statement_defs)

lemma connect_clean: "session (connect db) = committed (connect db)"
  by (simp add: connect_def)



text \<open>
  In every run of \<open>SnowflakeLoaderService.load_todays_data\<close> in which the three critical
  phases succeed and no \<open>rollback\<close> or \<open>close\<close> raises, whatever the aggregate refresh
  and the cleanup do: the run returns \<open>True\<close>; after a failed non-critical phase it
  rolls back and invokes the next one; the committed dimension and fact tables are
  the merges; without \<open>AUTOCOMMIT\<close>, a failed aggregate refresh leaves the committed
  aggregate table as it was.
\<close>

lemma service_non_critical_failure:
  assumes "\<not> raises e Connect" and "succeeds e STAGING" and "succeeds e CHANNELS"
    and "succeeds e FACTS"
    and "\<not> raises e (Rollback AGGREGATIONS)" and "\<not> raises e (Rollback CLEANUP)"
    and "\<not> raises e Close"
  shows "fst (service_load_todays_data e db) = Inr True \<and>
    events (snd (service_load_todays_data e db)) =
      [Invoked STAGING, Committed, Invoked CHANNELS, Committed, Invoked FACTS, Committed,
       Invoked AGGREGATIONS, if succeeds e AGGREGATIONS then Committed else RolledBack,
       Invoked CLEANUP, if succeeds e CLEANUP then Committed else RolledBack, Closed] \<and>
    DIM_CHANNELS (committed (snd (service_load_todays_data e db))) =
      DimensionMerger (clock_of e CHANNELS) (last_updated_default e) (channels_files e)
        (DIM_CHANNELS db) \<and>
    (\<not> succeeds e AGGREGATIONS \<and> \<not> autocommit e \<longrightarrow>
       AGG_DAILY_BY_REGION (committed (snd (service_load_todays_data e db))) =
         AGG_DAILY_BY_REGION db)"
proof -
  from staging_succeeds [OF assms(2) connect_clean]
  obtain c1 where g1: "guarded e STAGING (service_load_videos_to_staging e) (connect db) =
      (Inr True, c1)"
    and s1: "session c1 = committed c1"
    and e1: "events c1 = events (connect db) @ [Invoked STAGING, Committed]"
    and d1: "DIM_CHANNELS (committed c1) = DIM_CHANNELS (committed (connect db))"
    and a1: "AGG_DAILY_BY_REGION (committed c1) = AGG_DAILY_BY_REGION (committed (connect db))"
    by blast
  from channels_succeeds [OF assms(3) s1]
  obtain c2 where g2: "guarded e CHANNELS (service_load_channels e) c1 = (Inr True, c2)"
    and s2: "session c2 = committed c2"
    and e2: "events c2 = events c1 @ [Invoked CHANNELS, Committed]"
    and d2: "DIM_CHANNELS (committed c2) =
       DimensionMerger (clock_of e CHANNELS) (last_updated_default e) (channels_files e)
         (DIM_CHANNELS (committed c1))"
    and a2: "AGG_DAILY_BY_REGION (committed c2) = AGG_DAILY_BY_REGION (committed c1)"
    by blast
  from facts_succeeds [OF assms(4) s2]
  obtain c3 where g3: "guarded e FACTS (service_load_video_facts e) c2 = (Inr True, c3)"
    and s3: "session c3 = committed c3"
    and e3: "events c3 = events c2 @ [Invoked FACTS, Committed]"
    and d3: "DIM_CHANNELS (committed c3) = DIM_CHANNELS (committed c2)"
    and a3: "AGG_DAILY_BY_REGION (committed c3) = AGG_DAILY_BY_REGION (committed c2)"
    by blast
  from aggregations_any [OF assms(5) s3]
  obtain c4 where g4: "guarded e AGGREGATIONS (service_refresh_aggregations e) c3 =
       (Inr (succeeds e AGGREGATIONS), c4)"
    and s4: "session c4 = committed c4"
    and e4: "events c4 = events c3 @
       [Invoked AGGREGATIONS, if succeeds e AGGREGATIONS then Committed else RolledBack]"
    and d4: "DIM_CHANNELS (committed c4) = DIM_CHANNELS (committed c3)"
    and a4: "\<not> succeeds e AGGREGATIONS \<and> \<not> autocommit e \<longrightarrow> committed c4 = committed c3"
    by blast
  from cleanup_any [OF assms(6) s4]
  obtain c5 where g5: "guarded e CLEANUP (service_cleanup_staging e) c4 =
       (Inr (succeeds e CLEANUP), c5)"
    and e5: "events c5 = events c4 @
       [Invoked CLEANUP, if succeeds e CLEANUP then Committed else RolledBack]"
    and d5: "DIM_CHANNELS (committed c5) = DIM_CHANNELS (committed c4)"
    and a5: "AGG_DAILY_BY_REGION (committed c5) = AGG_DAILY_BY_REGION (committed c4)"
    by blast
  have r: "service_load_todays_data e db = (Inr True, c5 \<lparr> events := events c5 @ [Closed] \<rparr>)"
    using assms(1) assms(7)
    by (simp add: service_load_todays_data_def critical_def non_critical_def
        outer_handler_def finally_close_def g1 g2 g3 g4 g5)
  have ev: "events c5 = [Invoked STAGING, Committed, Invoked CHANNELS, Committed,
       Invoked FACTS, Committed,
       Invoked AGGREGATIONS, if succeeds e AGGREGATIONS then Committed else RolledBack,
       Invoked CLEANUP, if succeeds e CLEANUP then Committed else RolledBack]"
    by (simp add: e5 e4 e3 e2 e1 connect_def)
  have dim: "DIM_CHANNELS (committed c5) =
      DimensionMerger (clock_of e CHANNELS) (last_updated_default e) (channels_files e)
        (DIM_CHANNELS db)"
    by (simp add: d5 d4 d3 d2 d1 connect_def)
  have agg: "AGG_DAILY_BY_REGION (committed c5) = AGG_DAILY_BY_REGION db"
    if "\<not> succeeds e AGGREGATIONS \<and> \<not> autocommit e"
    using a4 that by (simp add: a5 a3 a2 a1 connect_def)
  show ?thesis
    unfolding r using ev dim agg by simp
qed

lemma statement_events:
  "events (create_if_not_exists c) = events c"
  "events (create_temp_videos e c) = events c"
  "events (insert_stg_videos e c) = events c"
  "events (create_temp_channels e c) = events c"
  "events (merge_into_dim_channels e c) = events c"
  "events (merge_into_fact_videos c) = events c"
  "events (insert_into_fact_videos c) = events c"
  "events (delete_aggregations e c) = events c"
  "events (insert_aggregations e c) = events c"
  "events (truncate_stg_videos c) = events c"
  by (simp_all add: create_if_not_exists_def create_temp_videos_def insert_stg_videos_def
      create_temp_channels_def merge_into_dim_channels_def merge_into_fact_videos_def
      insert_into_fact_videos_def delete_aggregations_def insert_aggregations_def
      truncate_stg_videos_def)

lemma execute_ok:
  assumes "\<not> raises e (Execute p i)" and "events (stmt c) = events c"
  shows "\<exists>c'. events c' = events c \<and> execute e p i stmt c = (None, c')"
  using assms by (simp add: execute_def Let_def)

lemma execute_raises:
  assumes "raises e (Execute p i)"
  shows "execute e p i stmt c = (Some WarehouseError, c)"
  using assms by (simp add: execute_def)

lemma loader_load_videos_to_staging_ok:
  assumes "\<not> raises e (Execute STAGING 0)" and "\<not> raises e (Execute STAGING 1)"
    and "\<not> raises e (Execute STAGING 2)"
  shows "\<exists>c'. events c' = events c \<and> loader_load_videos_to_staging e c = (None, c')"
proof -
  from execute_ok [of e STAGING 0 create_if_not_exists c, OF assms(1) statement_events(1)]
  obtain c1 where c1: "events c1 = events c"
    "execute e STAGING 0 create_if_not_exists c = (None, c1)" by blast
  from execute_ok [of e STAGING 1 "create_temp_videos e" c1, OF assms(2) statement_events(2)]
  obtain c2 where c2: "events c2 = events c1"
    "execute e STAGING 1 (create_temp_videos e) c1 = (None, c2)" by blast
  from execute_ok [of e STAGING 2 "insert_stg_videos e" c2, OF assms(3) statement_events(3)]
  obtain c3 where c3: "events c3 = events c2"
    "execute e STAGING 2 (insert_stg_videos e) c2 = (None, c3)" by blast
  show ?thesis
    by (simp add: loader_load_videos_to_staging_def and_next_def c1 c2 c3 del: One_nat_def)
qed

lemma loader_load_channels_ok:
  assumes "\<not> raises e (Execute CHANNELS 0)" and "\<not> raises e (Execute CHANNELS 1)"
  shows "\<exists>c'. events c' = events c \<and> loader_load_channels e c = (None, c')"
proof -
  from execute_ok [of e CHANNELS 0 "create_temp_channels e" c, OF assms(1) statement_events(4)]
  obtain c1 where c1: "events c1 = events c"
    "execute e CHANNELS 0 (create_temp_channels e) c = (None, c1)" by blast
  from execute_ok [of e CHANNELS 1 "merge_into_dim_channels e" c1,
      OF assms(2) statement_events(5)]
  obtain c2 where c2: "events c2 = events c1"
    "execute e CHANNELS 1 (merge_into_dim_channels e) c1 = (None, c2)" by blast
  show ?thesis
    by (simp add: loader_load_channels_def and_next_def c1 c2 del: One_nat_def)
qed

lemma loader_load_video_facts_ok:
  assumes "\<not> raises e (Execute FACTS 0)"
  shows "\<exists>c'. events c' = events c \<and> loader_load_video_facts e c = (None, c')"
  unfolding loader_load_video_facts_def
  using assms statement_events(7) by (rule execute_ok)

lemma loader_refresh_aggregations_outcome:
  "\<exists>c'. events c' = events c \<and>
     loader_refresh_aggregations e c =
       (if raises e (Execute AGGREGATIONS 0) \<or> raises e (Execute AGGREGATIONS 1)
        then Some WarehouseError else None, c')"
proof (cases "raises e (Execute AGGREGATIONS 0)")
  case True
  then show ?thesis
    by (simp add: loader_refresh_aggregations_def and_next_def execute_raises del: One_nat_def)
next
  case False
  from execute_ok [of e AGGREGATIONS 0 "delete_aggregations e" c,
      OF False statement_events(8)]
  obtain c1 where c1: "events c1 = events c"
    "execute e AGGREGATIONS 0 (delete_aggregations e) c = (None, c1)" by blast
  show ?thesis
  proof (cases "raises e (Execute AGGREGATIONS 1)")
    case True
    then show ?thesis
      using False by (simp add: loader_refresh_aggregations_def and_next_def c1 execute_raises del: One_nat_def)
  next
    case no: False
    from execute_ok [of e AGGREGATIONS 1 "insert_aggregations e" c1,
        OF no statement_events(9)]
    obtain c2 where c2: "events c2 = events c1"
      "execute e AGGREGATIONS 1 (insert_aggregations e) c1 = (None, c2)" by blast
    show ?thesis
      using False no by (simp add: loader_refresh_aggregations_def and_next_def c1 c2 del: One_nat_def)
  qed
qed

text \<open>
  C1 does not hold of \<open>SnowflakeLoader.load_todays_data\<close> (\<open>snowflake_loader.py\<close>). In
  every run in which no statement of the staging load, the channel merge and the fact
  load raises and a statement of the aggregate refresh or of the cleanup raises, it
  returns \<open>False\<close>; it calls no \<open>rollback\<close>, and after a failed aggregate refresh it does
  not invoke the cleanup. \<open>SnowflakeLoaderService.load_todays_data\<close> returns \<open>True\<close> in
  these runs, after a \<open>rollback\<close> and the next phase.
\<close>

theorem loader_non_critical_failure:
  assumes "\<not> raises e (Execute STAGING 0)" and "\<not> raises e (Execute STAGING 1)"
    and "\<not> raises e (Execute STAGING 2)" and "\<not> raises e (Execute CHANNELS 0)"
    and "\<not> raises e (Execute CHANNELS 1)" and "\<not> raises e (Execute FACTS 0)"
    and "raises e (Execute AGGREGATIONS 0) \<or> raises e (Execute AGGREGATIONS 1) \<or>
         raises e (Execute CLEANUP 0)"
  shows "fst (loader_load_todays_data e c) = False \<and>
    events (snd (loader_load_todays_data e c)) =
      events c @ [Invoked STAGING, Invoked CHANNELS, Invoked FACTS, Invoked AGGREGATIONS] @
      (if raises e (Execute AGGREGATIONS 0) \<or> raises e (Execute AGGREGATIONS 1) then []
       else [Invoked CLEANUP])"
proof -
  from loader_load_videos_to_staging_ok [OF assms(1-3), of "invoked STAGING c"]
  obtain c1 where c1: "events c1 = events (invoked STAGING c)"
    "loader_load_videos_to_staging e (invoked STAGING c) = (None, c1)" by blast
  from loader_load_channels_ok [OF assms(4,5), of "invoked CHANNELS c1"]
  obtain c2 where c2: "events c2 = events (invoked CHANNELS c1)"
    "loader_load_channels e (invoked CHANNELS c1) = (None, c2)" by blast
  from loader_load_video_facts_ok [OF assms(6), of "invoked FACTS c2"]
  obtain c3 where c3: "events c3 = events (invoked FACTS c2)"
    "loader_load_video_facts e (invoked FACTS c2) = (None, c3)" by blast
  from loader_refresh_aggregations_outcome [of "invoked AGGREGATIONS c3" e]
  obtain c4 where c4: "events c4 = events (invoked AGGREGATIONS c3)"
    "loader_refresh_aggregations e (invoked AGGREGATIONS c3) =
       (if raises e (Execute AGGREGATIONS 0) \<or> raises e (Execute AGGREGATIONS 1)
        then Some WarehouseError else None, c4)" by blast
  have ev: "events c4 =
      events c @ [Invoked STAGING, Invoked CHANNELS, Invoked FACTS, Invoked AGGREGATIONS]"
    by (simp add: c4(1) c3(1) c2(1) c1(1) invoked_def del: One_nat_def)
  show ?thesis
  proof (cases "raises e (Execute AGGREGATIONS 0) \<or> raises e (Execute AGGREGATIONS 1)")
    case True
    then have "loader_load_todays_data e c = (False, c4)"
      by (simp add: loader_load_todays_data_def and_next_def c1(2) c2(2) c3(2) c4(2) del: One_nat_def)
    then show ?thesis using True ev by simp
  next
    case False
    then have r: "raises e (Execute CLEANUP 0)" using assms(7) by blast
    have "loader_cleanup_staging e (invoked CLEANUP c4) =
        (Some WarehouseError, invoked CLEANUP c4)"
      unfolding loader_cleanup_staging_def using r by (rule execute_raises)
    then have "loader_load_todays_data e c = (False, invoked CLEANUP c4)"
      using False
      by (simp add: loader_load_todays_data_def and_next_def c1(2) c2(2) c3(2) c4(2) del: One_nat_def)
    then show ?thesis using False ev by (simp add: invoked_def del: One_nat_def)
  qed
qed

theorem loader_non_critical_failure_witness:
  "fst (loader_load_todays_data (failing_env (Execute AGGREGATIONS 1)) (connect example_db)) =
     False \<and>
   events (snd (loader_load_todays_data (failing_env (Execute AGGREGATIONS 1))
     (connect example_db))) =
     [Invoked STAGING, Invoked CHANNELS, Invoked FACTS, Invoked AGGREGATIONS]"
proof -
  have a: "\<not> raises (failing_env (Execute AGGREGATIONS 1)) (Execute STAGING 0)"
    "\<not> raises (failing_env (Execute AGGREGATIONS 1)) (Execute STAGING 1)"
    "\<not> raises (failing_env (Execute AGGREGATIONS 1)) (Execute STAGING 2)"
    "\<not> raises (failing_env (Execute AGGREGATIONS 1)) (Execute CHANNELS 0)"
    "\<not> raises (failing_env (Execute AGGREGATIONS 1)) (Execute CHANNELS 1)"
    "\<not> raises (failing_env (Execute AGGREGATIONS 1)) (Execute FACTS 0)"
    "raises (failing_env (Execute AGGREGATIONS 1)) (Execute AGGREGATIONS 0) \<or>
     raises (failing_env (Execute AGGREGATIONS 1)) (Execute AGGREGATIONS 1) \<or>
     raises (failing_env (Execute AGGREGATIONS 1)) (Execute CLEANUP 0)"
    by (simp_all add: failing_env_def)
  have r: "raises (failing_env (Execute AGGREGATIONS 1)) (Execute AGGREGATIONS 1)"
    by (simp add: failing_env_def)
  have n: "events (connect example_db) = []"
    by (simp add: connect_def)
  from loader_non_critical_failure [OF a, of "connect example_db"] r n
  show ?thesis by simp
qed

text \<open>The service's run with the same failing \<open>INSERT\<close>, for comparison.\<close>

lemma service_aggregation_failure_example:
  "fst (service_load_todays_data (failing_env (Execute AGGREGATIONS 3)) example_db) = Inr True \<and>
   events (snd (service_load_todays_data (failing_env (Execute AGGREGATIONS 3)) example_db)) =
     [Invoked STAGING, Committed, Invoked CHANNELS, Committed, Invoked FACTS, Committed,
      Invoked AGGREGATIONS, RolledBack, Invoked CLEANUP, Committed, Closed] \<and>
   AGG_DAILY_BY_REGION (committed (snd (service_load_todays_data
     (failing_env (Execute AGGREGATIONS 3)) example_db))) = AGG_DAILY_BY_REGION example_db"
proof -
  have a: "\<not> raises (failing_env (Execute AGGREGATIONS 3)) Connect"
    "succeeds (failing_env (Execute AGGREGATIONS 3)) STAGING"
    "succeeds (failing_env (Execute AGGREGATIONS 3)) CHANNELS"
    "succeeds (failing_env (Execute AGGREGATIONS 3)) FACTS"
    "\<not> raises (failing_env (Execute AGGREGATIONS 3)) (Rollback AGGREGATIONS)"
    "\<not> raises (failing_env (Execute AGGREGATIONS 3)) (Rollback CLEANUP)"
    "\<not> raises (failing_env (Execute AGGREGATIONS 3)) Close"
    by (simp_all add: failing_env_def succeeds_STAGING succeeds_CHANNELS succeeds_FACTS)
  have b: "\<not> succeeds (failing_env (Execute AGGREGATIONS 3)) AGGREGATIONS"
    "succeeds (failing_env (Execute AGGREGATIONS 3)) CLEANUP"
    "\<not> autocommit (failing_env (Execute AGGREGATIONS 3))"
    by (simp_all add: failing_env_def succeeds_AGGREGATIONS succeeds_CLEANUP)
  from service_non_critical_failure [OF a, of example_db] b
  show ?thesis by simp
qed

subsection \<open>RecordAssembler\<close>

lemma and_then_Inr_iff: "and_then m f = Inr y \<longleftrightarrow> (\<exists>x. m = Inr x \<and> f x = Inr y)"
  by (cases m) simp_all

text \<open>
  After the first loop the keys of \<open>all_channels\<close> are the channel identifiers of the
  videos collected, each once.
\<close>

lemma process_videos_keys:
  assumes "process_videos cfg yt keyword region videos st = Inr st'"
    and "distinct (map fst (snd st))"
    and "set (map fst (snd st)) = set (map video_channel_id (fst st))"
  shows "distinct (map fst (snd st')) \<and>
    set (map fst (snd st')) = set (map video_channel_id (fst st'))"
  using assms
proof (induction videos arbitrary: st)
  case Nil
  then show ?case by simp
next
  case (Cons video videos)
  from Cons.prems(1) obtain r
    where rest: "process_videos cfg yt keyword region videos
      (fst st @ [r], AList.update (video_channel_id r) None (snd st)) = Inr st'"
    by (auto simp: and_then_Inr_iff)
  have d: "distinct (map fst (AList.update (video_channel_id r) None (snd st)))"
    using Cons.prems(2) by (rule distinct_update)
  have s: "set (map fst (AList.update (video_channel_id r) None (snd st))) =
      set (map video_channel_id (fst st @ [r]))"
    using Cons.prems(3) by (simp add: dom_update)
  show ?case
    using Cons.IH [OF rest] d s by simp
qed

lemma process_keywords_keys:
  assumes "process_keywords details cfg yt region search_terms st = Inr st'"
    and "distinct (map fst (snd st))"
    and "set (map fst (snd st)) = set (map video_channel_id (fst st))"
  shows "distinct (map fst (snd st')) \<and>
    set (map fst (snd st')) = set (map video_channel_id (fst st'))"
  using assms
proof (induction search_terms arbitrary: st)
  case Nil
  then show ?case by simp
next
  case (Cons keyword search_terms)
  show ?case
  proof (cases "search_videos yt keyword region (VIDEOS_PER_KEYWORD cfg) = []")
    case True
    with Cons.prems(1)
    have "process_keywords details cfg yt region search_terms st = Inr st'" by simp
    from Cons.IH [OF this Cons.prems(2,3)] show ?thesis .
  next
    case False
    with Cons.prems(1) obtain st1
      where v: "process_videos cfg yt keyword region
          (details yt (search_videos yt keyword region (VIDEOS_PER_KEYWORD cfg))) st = Inr st1"
        and k: "process_keywords details cfg yt region search_terms st1 = Inr st'"
      by (auto simp: and_then_Inr_iff Let_def)
    from process_videos_keys [OF v Cons.prems(2,3)]
    have "distinct (map fst (snd st1))"
      "set (map fst (snd st1)) = set (map video_channel_id (fst st1))" by simp_all
    from Cons.IH [OF k this] show ?thesis .
  qed
qed

lemma process_regions_keys:
  assumes "process_regions details cfg yt regions st = Inr st'"
    and "distinct (map fst (snd st))"
    and "set (map fst (snd st)) = set (map video_channel_id (fst st))"
  shows "distinct (map fst (snd st')) \<and>
    set (map fst (snd st')) = set (map video_channel_id (fst st'))"
  using assms
proof (induction regions arbitrary: st)
  case Nil
  then show ?case by simp
next
  case (Cons region regions)
  from Cons.prems(1) obtain st1
    where k: "process_keywords details cfg yt region (SEARCH_KEYWORDS cfg) st = Inr st1"
      and r: "process_regions details cfg yt regions st1 = Inr st'"
    by (auto simp: and_then_Inr_iff)
  from process_keywords_keys [OF k Cons.prems(2,3)]
  have "distinct (map fst (snd st1))"
    "set (map fst (snd st1)) = set (map video_channel_id (fst st1))" by simp_all
  from Cons.IH [OF r this] show ?case .
qed

lemma concat_batches: "0 < n \<Longrightarrow> concat (batches n xs) = xs"
proof (induction n xs rule: batches.induct)
  case (1 n xs)
  show ?case
  proof (cases "xs = []")
    case True
    then show ?thesis by (subst batches.simps) simp
  next
    case False
    with 1 have "concat (batches n (drop n xs)) = drop n xs" by simp
    with False 1(2) show ?thesis by (subst batches.simps) simp
  qed
qed

lemma channel_record_of_id:
  assumes "channel_record_of i = Inr r"
  shows "channel_item_id i = Some (channel_id r)"
  using assms
  by (auto simp: channel_record_of_def and_then_Inr_iff subscript_def split: option.splits)

lemma answers_items:
  assumes "answers yt ids"
  shows "\<exists>items. channels_list yt ids = Inr items \<and> distinct (map channel_item_id items) \<and>
    set (map channel_item_id items) = Some ` set ids \<and>
    (\<forall>i \<in> set items. \<exists>r. channel_record_of i = Inr r)"
proof (cases "channels_list yt ids")
  case (Inl x)
  with assms show ?thesis by (simp add: answers_def)
next
  case (Inr items)
  with assms have a: "distinct (map channel_item_id items)"
    "set (map channel_item_id items) = Some ` set ids"
    "\<forall>i \<in> set items. (case channel_record_of i of Inl x \<Rightarrow> False | Inr r \<Rightarrow> True)"
    by (simp_all add: answers_def list_all_iff)
  have "\<exists>r. channel_record_of i = Inr r" if "i \<in> set items" for i
    using a(3) that by (cases "channel_record_of i") auto
  with Inr a(1,2) show ?thesis by simp
qed

lemma store_channels_ok:
  assumes "\<forall>i \<in> set items. \<exists>r. channel_record_of i = Inr r"
    and "set (map channel_item_id items) \<subseteq> Some ` set (map fst al)"
  shows "\<exists>al'. store_channels items al = Inr al' \<and> map fst al' = map fst al \<and>
     (\<forall>k. Some k \<notin> set (map channel_item_id items) \<longrightarrow> map_of al' k = map_of al k) \<and>
     (\<forall>k. Some k \<in> set (map channel_item_id items) \<longrightarrow>
        (\<exists>r. map_of al' k = Some (Some r) \<and> channel_id r = k))"
  using assms
proof (induction items arbitrary: al)
  case Nil
  show ?case by simp
next
  case (Cons i items)
  obtain r where r: "channel_record_of i = Inr r" using Cons.prems(1) by auto
  have id: "channel_item_id i = Some (channel_id r)" using r by (rule channel_record_of_id)
  define al1 where "al1 = AList.update (channel_id r) (Some r) al"
  have kin: "channel_id r \<in> set (map fst al)" using Cons.prems(2) id by auto
  have keys1: "map fst al1 = map fst al"
    unfolding al1_def using kin by (simp add: update_keys)
  have m1: "map_of al1 = (map_of al)(channel_id r \<mapsto> Some r)"
    unfolding al1_def by (rule update_conv')
  have p1: "\<forall>i \<in> set items. \<exists>r. channel_record_of i = Inr r" using Cons.prems(1) by simp
  have p2: "set (map channel_item_id items) \<subseteq> Some ` set (map fst al1)"
    using Cons.prems(2) unfolding keys1 by simp
  from Cons.IH [OF p1 p2] obtain al'
    where a: "store_channels items al1 = Inr al'" "map fst al' = map fst al1"
      and u: "\<forall>k. Some k \<notin> set (map channel_item_id items) \<longrightarrow> map_of al' k = map_of al1 k"
      and f: "\<forall>k. Some k \<in> set (map channel_item_id items) \<longrightarrow>
        (\<exists>r. map_of al' k = Some (Some r) \<and> channel_id r = k)"
    by blast
  have "store_channels (i # items) al = Inr al'"
    using r a(1) by (simp add: al1_def)
  moreover have "map fst al' = map fst al" using a(2) keys1 by simp
  moreover have "\<forall>k. Some k \<notin> set (map channel_item_id (i # items)) \<longrightarrow>
      map_of al' k = map_of al k"
    using u m1 id by auto
  moreover have "\<forall>k. Some k \<in> set (map channel_item_id (i # items)) \<longrightarrow>
      (\<exists>r. map_of al' k = Some (Some r) \<and> channel_id r = k)"
  proof (intro allI impI)
    fix k
    assume k: "Some k \<in> set (map channel_item_id (i # items))"
    show "\<exists>r. map_of al' k = Some (Some r) \<and> channel_id r = k"
    proof (cases "Some k \<in> set (map channel_item_id items)")
      case True
      with f show ?thesis by blast
    next
      case False
      with k id have "k = channel_id r" by auto
      moreover have "map_of al' k = map_of al1 k" using u False by blast
      ultimately show ?thesis using m1 by auto
    qed
  qed
  ultimately show ?case by blast
qed

lemma fetch_channels_ok:
  assumes "\<forall>b \<in> set bs. answers yt b"
    and "set (concat bs) \<subseteq> set (map fst al)"
  shows "\<exists>al'. fetch_channels yt bs al = Inr al' \<and> map fst al' = map fst al \<and>
     (\<forall>k. k \<notin> set (concat bs) \<longrightarrow> map_of al' k = map_of al k) \<and>
     (\<forall>k \<in> set (concat bs). \<exists>r. map_of al' k = Some (Some r) \<and> channel_id r = k)"
  using assms
proof (induction bs arbitrary: al)
  case Nil
  show ?case by simp
next
  case (Cons b bs)
  have "answers yt b" using Cons.prems(1) by simp
  from answers_items [OF this] obtain items
    where i: "channels_list yt b = Inr items"
      and s: "set (map channel_item_id items) = Some ` set b"
      and c: "\<forall>i \<in> set items. \<exists>r. channel_record_of i = Inr r"
    by blast
  have g: "get_channel_details yt b = items" using i by (simp add: get_channel_details_def)
  have "set (map channel_item_id items) \<subseteq> Some ` set (map fst al)"
    using s Cons.prems(2) by auto
  from store_channels_ok [OF c this] obtain al1
    where a1: "store_channels items al = Inr al1" "map fst al1 = map fst al"
      and u1: "\<forall>k. Some k \<notin> set (map channel_item_id items) \<longrightarrow> map_of al1 k = map_of al k"
      and f1: "\<forall>k. Some k \<in> set (map channel_item_id items) \<longrightarrow>
        (\<exists>r. map_of al1 k = Some (Some r) \<and> channel_id r = k)"
    by blast
  have p1: "\<forall>b \<in> set bs. answers yt b" using Cons.prems(1) by simp
  have p2: "set (concat bs) \<subseteq> set (map fst al1)"
    using Cons.prems(2) unfolding a1(2) by simp
  from Cons.IH [OF p1 p2] obtain al'
    where a: "fetch_channels yt bs al1 = Inr al'" "map fst al' = map fst al1"
      and u: "\<forall>k. k \<notin> set (concat bs) \<longrightarrow> map_of al' k = map_of al1 k"
      and f: "\<forall>k \<in> set (concat bs). \<exists>r. map_of al' k = Some (Some r) \<and> channel_id r = k"
    by blast
  have in_b: "Some k \<in> set (map channel_item_id items) \<longleftrightarrow> k \<in> set b" for k
    unfolding s by auto
  have "fetch_channels yt (b # bs) al = Inr al'"
    using g a1(1) a(1) by simp
  moreover have "map fst al' = map fst al" using a(2) a1(2) by simp
  moreover have "\<forall>k. k \<notin> set (concat (b # bs)) \<longrightarrow> map_of al' k = map_of al k"
    using u u1 in_b by simp
  moreover have "\<forall>k \<in> set (concat (b # bs)).
      \<exists>r. map_of al' k = Some (Some r) \<and> channel_id r = k"
  proof
    fix k
    assume k: "k \<in> set (concat (b # bs))"
    show "\<exists>r. map_of al' k = Some (Some r) \<and> channel_id r = k"
    proof (cases "k \<in> set (concat bs)")
      case True
      with f show ?thesis by blast
    next
      case False
      with k have "k \<in> set b" by simp
      then have "\<exists>r. map_of al1 k = Some (Some r) \<and> channel_id r = k"
        using f1 in_b by blast
      moreover have "map_of al' k = map_of al1 k" using u False by blast
      ultimately show ?thesis by simp
    qed
  qed
  ultimately show ?case by blast
qed

lemma filled_values:
  assumes "distinct (map fst al)"
    and "\<forall>k \<in> set (map fst al). \<exists>r. map_of al k = Some (Some r) \<and> channel_id r = k"
  shows "\<exists>recs. map snd al = map Some recs \<and> map channel_id recs = map fst al"
proof -
  have p: "\<exists>r. snd p = Some r \<and> channel_id r = fst p" if "p \<in> set al" for p
  proof -
    have "map_of al (fst p) = Some (snd p)"
      using assms(1) that by (simp add: map_of_eq_Some_iff)
    moreover have "fst p \<in> set (map fst al)" using that by simp
    ultimately show ?thesis using assms(2) by fastforce
  qed
  have q: "snd p = Some (the (snd p)) \<and> channel_id (the (snd p)) = fst p"
    if "p \<in> set al" for p
  proof -
    from p [OF that] obtain r where "snd p = Some r" "channel_id r = fst p" by blast
    then show ?thesis by simp
  qed
  have "map snd al = map Some (map (\<lambda>p. the (snd p)) al)"
    using q by (simp add: comp_def)
  moreover have "map channel_id (map (\<lambda>p. the (snd p)) al) = map fst al"
    using q by (simp add: comp_def)
  ultimately show ?thesis by blast
qed

lemma gather_channels_ok:
  assumes "distinct (concat bs)" and "\<forall>b \<in> set bs. answers yt b"
  shows "\<exists>items. gather (channels_list yt) bs = Inr items \<and>
     distinct (map channel_item_id items) \<and>
     set (map channel_item_id items) = Some ` set (concat bs) \<and>
     (\<forall>i \<in> set items. \<exists>r. channel_record_of i = Inr r)"
  using assms
proof (induction bs)
  case Nil
  show ?case by simp
next
  case (Cons b bs)
  have "answers yt b" using Cons.prems(2) by simp
  from answers_items [OF this] obtain items1
    where i: "channels_list yt b = Inr items1"
      and d1: "distinct (map channel_item_id items1)"
      and s1: "set (map channel_item_id items1) = Some ` set b"
      and c1: "\<forall>i \<in> set items1. \<exists>r. channel_record_of i = Inr r"
    by blast
  have "distinct (concat bs)" "\<forall>b \<in> set bs. answers yt b"
    using Cons.prems by simp_all
  from Cons.IH [OF this] obtain items2
    where g: "gather (channels_list yt) bs = Inr items2"
      and d2: "distinct (map channel_item_id items2)"
      and s2: "set (map channel_item_id items2) = Some ` set (concat bs)"
      and c2: "\<forall>i \<in> set items2. \<exists>r. channel_record_of i = Inr r"
    by blast
  have disj: "set b \<inter> set (concat bs) = {}" using Cons.prems(1) by simp
  have "gather (channels_list yt) (b # bs) = Inr (items1 @ items2)"
    using i g by simp
  moreover have "distinct (map channel_item_id (items1 @ items2))"
    using d1 d2 s1 s2 disj by auto
  moreover have "set (map channel_item_id (items1 @ items2)) = Some ` set (concat (b # bs))"
    using s1 s2 by auto
  moreover have "\<forall>i \<in> set (items1 @ items2). \<exists>r. channel_record_of i = Inr r"
    using c1 c2 by auto
  ultimately show ?case by blast
qed

lemma channel_records_of_ok:
  assumes "\<forall>i \<in> set items. \<exists>r. channel_record_of i = Inr r"
  shows "\<exists>recs. channel_records_of items = Inr recs \<and>
     map channel_item_id items = map (\<lambda>r. Some (channel_id r)) recs"
  using assms
proof (induction items)
  case Nil
  show ?case by simp
next
  case (Cons i items)
  obtain r where r: "channel_record_of i = Inr r" using Cons.prems by auto
  have id: "channel_item_id i = Some (channel_id r)" using r by (rule channel_record_of_id)
  have "\<forall>i \<in> set items. \<exists>r. channel_record_of i = Inr r" using Cons.prems by simp
  from Cons.IH [OF this] obtain recs
    where "channel_records_of items = Inr recs"
      "map channel_item_id items = map (\<lambda>r. Some (channel_id r)) recs" by blast
  then show ?case using r id by simp
qed

lemma batches_answered:
  assumes "\<forall>ids. distinct ids \<longrightarrow> answers yt ids" and "distinct ks"
  shows "distinct (concat (batches 50 ks)) \<and> concat (batches 50 ks) = ks \<and>
    (\<forall>b \<in> set (batches 50 ks). answers yt b)"
proof -
  have c: "concat (batches 50 ks) = ks" by (rule concat_batches) simp
  then have d: "distinct (concat (batches 50 ks))" using assms(2) by simp
  then have "\<forall>b \<in> set (batches 50 ks). distinct b" by (simp add: distinct_concat_iff)
  with assms(1) c d show ?thesis by simp
qed




end
